theory Spec2Isabelle
  imports Main "HOL-Library.Sublist"
begin

section \<open>The mock resource client (lib/api.ts)\<close>

text \<open>
  The module keeps one mutable array \<^verbatim>\<open>mockItems\<close> and exposes five asynchronous
  operations on it. Each operation first awaits a fixed delay and then runs one synchronous
  block; the model is that block, with the array passed in and (for the three mutating
  operations) passed out again. A rejected promise is the left injection of a sum.

  The two values the code takes from its environment are parameters of the model:
  the text of \<^verbatim>\<open>Math.random().toString(36)\<close> and the text of
  \<^verbatim>\<open>new Date().toISOString()\<close>.

  A JavaScript string is a HOL string, one character for each code unit. The code only
  compares strings, takes their \<^verbatim>\<open>length\<close> and cuts a prefix off with
  \<^verbatim>\<open>substring\<close>, so nothing depends on which characters there are.

  \<^verbatim>\<open>list\<close> returns the array itself and \<^verbatim>\<open>update\<close> assigns into it, whereas
  \<^verbatim>\<open>create\<close> and \<^verbatim>\<open>delete\<close> build a new array. The model passes arrays by value:
  what a caller got from \<^verbatim>\<open>list\<close> is the collection of that moment.
\<close>

datatype item_status = active | inactive

text \<open>\<^verbatim>\<open>interface Item\<close>. The field \<^verbatim>\<open>id\<close> is written \<open>id_field\<close>, since \<open>id\<close> is
  the identity function of HOL.\<close>

record Item =
  id_field :: string
  name :: string
  description :: string
  status :: item_status
  createdAt :: string

text \<open>\<^verbatim>\<open>Omit<Item, 'id' | 'createdAt'>\<close>, the argument of \<^verbatim>\<open>create\<close>.\<close>

record ItemData =
  data_name :: string
  data_description :: string
  data_status :: item_status

text \<open>\<^verbatim>\<open>Partial<Item>\<close>, the argument of \<^verbatim>\<open>update\<close>: every property of \<^verbatim>\<open>Item\<close>,
  \<^verbatim>\<open>id\<close> and \<^verbatim>\<open>createdAt\<close> included, is either absent (\<open>None\<close>) or present with a
  value of the property's type. (A property present as \<^verbatim>\<open>undefined\<close> would be copied
  by the spread like any other and leave a record that is no \<^verbatim>\<open>Item\<close>; it is not
  modelled.)\<close>

record PartialItem =
  p_id :: "string option"
  p_name :: "string option"
  p_description :: "string option"
  p_status :: "item_status option"
  p_createdAt :: "string option"

text \<open>\<^verbatim>\<open>new Error('Item not found')\<close>, the only error the module throws.\<close>

datatype api_error = ItemNotFound

text \<open>The initial value of \<^verbatim>\<open>mockItems\<close>; \<open>t0\<close> is the time at which the module is loaded.\<close>

definition mockItems_init :: "string \<Rightarrow> Item list" where
  "mockItems_init t0 =
     [\<lparr>id_field = ''1'', name = ''First Item'', description = ''This is a sample item'',
       status = active, createdAt = t0\<rparr>,
      \<lparr>id_field = ''2'', name = ''Second Item'', description = ''Another sample item'',
       status = inactive, createdAt = t0\<rparr>]"

text \<open>\<^verbatim>\<open>Array.prototype.findIndex\<close>: the index of the first element that satisfies the
  predicate; the \<^verbatim>\<open>-1\<close> of JavaScript is \<open>None\<close>.\<close>

fun findIndex :: "('a \<Rightarrow> bool) \<Rightarrow> 'a list \<Rightarrow> nat option" where
  "findIndex P [] = None"
| "findIndex P (x # xs) = (if P x then Some 0 else map_option Suc (findIndex P xs))"

text \<open>The object spread \<^verbatim>\<open>{ ...item, ...data }\<close>: a property present in \<open>data\<close> wins.\<close>

definition spread :: "Item \<Rightarrow> PartialItem \<Rightarrow> Item" where
  "spread it d =
     \<lparr>id_field = (case p_id d of None \<Rightarrow> id_field it | Some v \<Rightarrow> v),
      name = (case p_name d of None \<Rightarrow> name it | Some v \<Rightarrow> v),
      description = (case p_description d of None \<Rightarrow> description it | Some v \<Rightarrow> v),
      status = (case p_status d of None \<Rightarrow> status it | Some v \<Rightarrow> v),
      createdAt = (case p_createdAt d of None \<Rightarrow> createdAt it | Some v \<Rightarrow> v)\<rparr>"

text \<open>\<^verbatim>\<open>api.items.list\<close>: returns \<^verbatim>\<open>mockItems\<close>.\<close>

definition api_items_list :: "Item list \<Rightarrow> Item list" where
  "api_items_list mockItems = mockItems"

text \<open>\<^verbatim>\<open>api.items.get\<close>: \<^verbatim>\<open>mockItems.find((item) => item.id === id)\<close>, and a throw when
  nothing is found.\<close>

definition api_items_get :: "string \<Rightarrow> Item list \<Rightarrow> api_error + Item" where
  "api_items_get i mockItems =
     (case find (\<lambda>item. id_field item = i) mockItems of
        None \<Rightarrow> Inl ItemNotFound
      | Some item \<Rightarrow> Inr item)"

text \<open>\<^verbatim>\<open>api.items.create\<close>. \<open>rnd\<close> is the text of \<^verbatim>\<open>Math.random().toString(36)\<close>, of which
  \<^verbatim>\<open>substring(7)\<close> keeps what follows the first seven characters; \<open>now\<close> is the timestamp.
  Nothing is compared with the identifiers already stored.\<close>

definition api_items_create ::
  "ItemData \<Rightarrow> string \<Rightarrow> string \<Rightarrow> Item list \<Rightarrow> (api_error + Item) \<times> Item list" where
  "api_items_create d rnd now mockItems =
     (let newItem = \<lparr>id_field = drop 7 rnd, name = data_name d,
                     description = data_description d, status = data_status d,
                     createdAt = now\<rparr>
      in (Inr newItem, mockItems @ [newItem]))"

text \<open>\<^verbatim>\<open>api.items.update\<close>: the throw leaves the array as it was; otherwise the element at
  the index found is replaced by the spread and returned.\<close>

definition api_items_update ::
  "string \<Rightarrow> PartialItem \<Rightarrow> Item list \<Rightarrow> (api_error + Item) \<times> Item list" where
  "api_items_update i d mockItems =
     (case findIndex (\<lambda>item. id_field item = i) mockItems of
        None \<Rightarrow> (Inl ItemNotFound, mockItems)
      | Some index \<Rightarrow>
          (let merged = spread (mockItems ! index) d
           in (Inr merged, mockItems[index := merged])))"

text \<open>\<^verbatim>\<open>api.items.delete\<close>: \<^verbatim>\<open>mockItems.filter((item) => item.id !== id)\<close>; the promise
  resolves with no value.\<close>

definition api_items_delete :: "string \<Rightarrow> Item list \<Rightarrow> (api_error + unit) \<times> Item list" where
  "api_items_delete i mockItems = (Inr (), filter (\<lambda>item. id_field item \<noteq> i) mockItems)"

text \<open>The identifiers stored in a collection, in order.\<close>

definition ids :: "Item list \<Rightarrow> string list" where
  "ids mockItems = map id_field mockItems"

text \<open>The creation input of the specification's scenario.\<close>

definition widget :: ItemData where
  "widget = \<lparr>data_name = ''Widget'', data_description = ''A sample widget'', data_status = active\<rparr>"

section \<open>The UI state store (stores/uiStore.ts)\<close>

text \<open>
  The store created by Zustand holds \<^verbatim>\<open>sidebarOpen\<close> together with the two actions.
  \<^verbatim>\<open>set\<close> merges the object it is given into the current state, so every property it
  is not given stays. The state is an extensible record: \<open>UIState.more\<close> stands for
  everything in the store besides \<^verbatim>\<open>sidebarOpen\<close>.
\<close>

record UIState =
  sidebarOpen :: bool

text \<open>The state the initialiser returns: \<^verbatim>\<open>sidebarOpen: true\<close>.\<close>

definition useUIStore_init :: UIState where
  "useUIStore_init = \<lparr>sidebarOpen = True\<rparr>"

text \<open>\<^verbatim>\<open>toggleSidebar: () => set((state) => ({ sidebarOpen: !state.sidebarOpen }))\<close>\<close>

definition toggleSidebar :: "'a UIState_scheme \<Rightarrow> 'a UIState_scheme" where
  "toggleSidebar state = state\<lparr>sidebarOpen := \<not> sidebarOpen state\<rparr>"

text \<open>\<^verbatim>\<open>setSidebarOpen: (open) => set({ sidebarOpen: open })\<close>\<close>

definition setSidebarOpen :: "bool \<Rightarrow> 'a UIState_scheme \<Rightarrow> 'a UIState_scheme" where
  "setSidebarOpen opn state = state\<lparr>sidebarOpen := opn\<rparr>"

section \<open>The query-cache layer (hooks/useItems.ts)\<close>

text \<open>
  The hooks of the repository configure \<^verbatim>\<open>useQuery\<close> and \<^verbatim>\<open>useMutation\<close> of
  @tanstack/react-query: they give the query keys, the functions to call and the
  \<^verbatim>\<open>onSuccess\<close> callbacks. The cache itself and the order in which the library calls
  those functions are not part of the repository; they are modelled from section 4.2 of
  the specification, sequentially (one operation is awaited before the next begins).
\<close>

type_synonym query_key = "string list"

text \<open>\<^verbatim>\<open>const ITEMS_QUERY_KEY = ['items']\<close>\<close>

definition ITEMS_QUERY_KEY :: query_key where
  "ITEMS_QUERY_KEY = [''items'']"

text \<open>What a query function of the hooks resolves with: the collection, or one record.\<close>

datatype query_data = ItemsData "Item list" | ItemData Item

text \<open>A cache entry: the last value fetched with success, the error of the last fetch if
  it failed, and the staleness flag. The data and the error are kept side by side: a
  failed fetch does not erase the data the entry had.\<close>

record cache_entry =
  entry_data :: "query_data option"
  entry_error :: "api_error option"
  stale :: bool

text \<open>What a read gives the page: \<^verbatim>\<open>data\<close> and \<^verbatim>\<open>error\<close> of the object that
  \<^verbatim>\<open>useQuery\<close> returns. Both are absent while nothing was fetched.\<close>

record QueryResult =
  result_data :: "query_data option"
  result_error :: "api_error option"

definition observe :: "cache_entry \<Rightarrow> QueryResult" where
  "observe e = \<lparr>result_data = entry_data e, result_error = entry_error e\<rparr>"

text \<open>What the layer did, in order; used to state when an invalidation happens.\<close>

datatype event = MutationCalled | MutationSucceeded | MutationFailed | Invalidated query_key

record QueryClient =
  cache :: "query_key \<Rightarrow> cache_entry option"
  events :: "event list"

definition QueryClient_init :: QueryClient where
  "QueryClient_init = \<lparr>cache = (\<lambda>k. None), events = []\<rparr>"

text \<open>
  Modelled from the spec: \<^verbatim>\<open>queryClient.invalidateQueries\<close> belongs to the library
  @tanstack/react-query, whose code is not among the sources of the repository. It marks the related cache entries stale, so that the next read
  refetches. The related entries of a key are those whose key begins with it (the
  library's matching of query keys): \<^verbatim>\<open>['items']\<close> covers the collection and every
  \<^verbatim>\<open>['items', id]\<close>.
\<close>

definition invalidateQueries :: "query_key \<Rightarrow> QueryClient \<Rightarrow> QueryClient" where
  "invalidateQueries queryKey qc =
     qc\<lparr>cache := (\<lambda>k. map_option (\<lambda>e. if prefix queryKey k then e\<lparr>stale := True\<rparr> else e)
                            (cache qc k)),
        events := events qc @ [Invalidated queryKey]\<rparr>"

text \<open>
  Modelled from the spec: how a fetch settles into a cache entry is decided by the library
  @tanstack/react-query, whose code is not among the sources of the repository. A fetch
  that succeeds stores its value, clears the error and makes the entry fresh. A fetch
  that fails records the error, leaves the prior data of the entry visible and leaves the
  entry stale (stale-while-error).
\<close>

definition settle :: "cache_entry option \<Rightarrow> api_error + query_data \<Rightarrow> cache_entry" where
  "settle old fetched =
     (case fetched of
        Inr d \<Rightarrow> \<lparr>entry_data = Some d, entry_error = None, stale = False\<rparr>
      | Inl err \<Rightarrow>
          \<lparr>entry_data = (case old of None \<Rightarrow> None | Some e \<Rightarrow> entry_data e),
           entry_error = Some err, stale = True\<rparr>)"

text \<open>
  Modelled from the spec: \<^verbatim>\<open>useQuery\<close> belongs to the library @tanstack/react-query,
  whose code is not among the sources of the repository. Given a cache key and a fetch
  function it returns the cached entry if fresh, otherwise it invokes the fetch function
  and updates the cache. A query that is not \<^verbatim>\<open>enabled\<close> never fetches: it returns
  what the cache holds, if anything. A read does not change the collection.
\<close>

definition useQuery ::
  "query_key \<Rightarrow> (Item list \<Rightarrow> api_error + query_data) \<Rightarrow> bool \<Rightarrow> Item list \<Rightarrow> QueryClient
     \<Rightarrow> QueryResult \<times> QueryClient" where
  "useQuery queryKey queryFn enabled mockItems qc =
     (let fetched = settle (cache qc queryKey) (queryFn mockItems);
          refetch = (observe fetched, qc\<lparr>cache := (cache qc)(queryKey \<mapsto> fetched)\<rparr>)
      in case cache qc queryKey of
           None \<Rightarrow>
             if enabled then refetch else (\<lparr>result_data = None, result_error = None\<rparr>, qc)
         | Some e \<Rightarrow> if enabled \<and> stale e then refetch else (observe e, qc))"

text \<open>
  Modelled from the spec: \<^verbatim>\<open>useMutation\<close> (its \<^verbatim>\<open>mutateAsync\<close>) belongs to the library
  @tanstack/react-query, whose code is not among the sources of the repository. It invokes the mutating function; on successful
  completion it runs \<^verbatim>\<open>onSuccess\<close> with the result and the variables; on failure it
  leaves the cache untouched and surfaces the error to the caller.
\<close>

definition useMutation ::
  "('v \<Rightarrow> Item list \<Rightarrow> (api_error + 'r) \<times> Item list) \<Rightarrow> ('r \<Rightarrow> 'v \<Rightarrow> QueryClient \<Rightarrow> QueryClient)
     \<Rightarrow> 'v \<Rightarrow> Item list \<times> QueryClient \<Rightarrow> (api_error + 'r) \<times> Item list \<times> QueryClient" where
  "useMutation mutationFn onSuccess variables s =
     (let called = (snd s)\<lparr>events := events (snd s) @ [MutationCalled]\<rparr>
      in case mutationFn variables (fst s) of
           (Inl err, mockItems') \<Rightarrow>
             (Inl err, mockItems', called\<lparr>events := events called @ [MutationFailed]\<rparr>)
         | (Inr result, mockItems') \<Rightarrow>
             (Inr result, mockItems',
              onSuccess result variables (called\<lparr>events := events called @ [MutationSucceeded]\<rparr>)))"

text \<open>\<^verbatim>\<open>useItems\<close>: key \<^verbatim>\<open>['items']\<close>, query function \<^verbatim>\<open>api.items.list\<close>.\<close>

definition useItems :: "Item list \<Rightarrow> QueryClient \<Rightarrow> QueryResult \<times> QueryClient" where
  "useItems = useQuery ITEMS_QUERY_KEY (\<lambda>mockItems. Inr (ItemsData (api_items_list mockItems))) True"

text \<open>The query function of \<^verbatim>\<open>useItem\<close>: \<^verbatim>\<open>() => api.items.get(id)\<close>.\<close>

definition item_queryFn :: "string \<Rightarrow> Item list \<Rightarrow> api_error + query_data" where
  "item_queryFn i mockItems =
     (case api_items_get i mockItems of Inl err \<Rightarrow> Inl err | Inr item \<Rightarrow> Inr (ItemData item))"

text \<open>\<^verbatim>\<open>useItem(id)\<close>: key \<^verbatim>\<open>['items', id]\<close>, \<^verbatim>\<open>enabled: !!id\<close> (false for the empty
  string only).\<close>

definition useItem ::
  "string \<Rightarrow> Item list \<Rightarrow> QueryClient \<Rightarrow> QueryResult \<times> QueryClient" where
  "useItem i = useQuery (ITEMS_QUERY_KEY @ [i]) (item_queryFn i) (i \<noteq> [])"

text \<open>\<^verbatim>\<open>useCreateItem\<close>: \<^verbatim>\<open>mutationFn: api.items.create\<close>; on success the key
  \<^verbatim>\<open>['items']\<close> is invalidated. \<open>rnd\<close> and \<open>now\<close> are what \<^verbatim>\<open>create\<close> reads from its
  environment during the call.\<close>

definition useCreateItem ::
  "string \<Rightarrow> string \<Rightarrow> ItemData \<Rightarrow> Item list \<times> QueryClient
     \<Rightarrow> (api_error + Item) \<times> Item list \<times> QueryClient" where
  "useCreateItem rnd now =
     useMutation (\<lambda>d. api_items_create d rnd now) (\<lambda>_ _. invalidateQueries ITEMS_QUERY_KEY)"

text \<open>\<^verbatim>\<open>useUpdateItem\<close>: the variables are \<^verbatim>\<open>{ id, data }\<close>; on success first
  \<^verbatim>\<open>['items']\<close> and then \<^verbatim>\<open>['items', variables.id]\<close> are invalidated.\<close>

definition useUpdateItem ::
  "string \<times> PartialItem \<Rightarrow> Item list \<times> QueryClient
     \<Rightarrow> (api_error + Item) \<times> Item list \<times> QueryClient" where
  "useUpdateItem =
     useMutation (\<lambda>variables. api_items_update (fst variables) (snd variables))
       (\<lambda>_ variables qc.
          invalidateQueries (ITEMS_QUERY_KEY @ [fst variables])
            (invalidateQueries ITEMS_QUERY_KEY qc))"

text \<open>\<^verbatim>\<open>useDeleteItem\<close>: \<^verbatim>\<open>mutationFn: api.items.delete\<close>; on success the key
  \<^verbatim>\<open>['items']\<close> is invalidated.\<close>

definition useDeleteItem ::
  "string \<Rightarrow> Item list \<times> QueryClient \<Rightarrow> (api_error + unit) \<times> Item list \<times> QueryClient" where
  "useDeleteItem = useMutation api_items_delete (\<lambda>_ _. invalidateQueries ITEMS_QUERY_KEY)"

text \<open>A sequence of operations issued through the hooks, each awaited before the next.\<close>

datatype operation =
    OpList
  | OpGet string
  | OpCreate ItemData string string
  | OpUpdate string PartialItem
  | OpDelete string

fun step :: "operation \<Rightarrow> Item list \<times> QueryClient \<Rightarrow> Item list \<times> QueryClient" where
  "step OpList s = (fst s, snd (useItems (fst s) (snd s)))"
| "step (OpGet i) s = (fst s, snd (useItem i (fst s) (snd s)))"
| "step (OpCreate d rnd now) s = snd (useCreateItem rnd now d s)"
| "step (OpUpdate i d) s = snd (useUpdateItem (i, d) s)"
| "step (OpDelete i) s = snd (useDeleteItem i s)"

fun run :: "operation list \<Rightarrow> Item list \<times> QueryClient \<Rightarrow> Item list \<times> QueryClient" where
  "run [] s = s"
| "run (x # xs) s = run xs (step x s)"

text \<open>A fresh entry carries no error and holds what the resource client returns on the
  collection (the list, or the record that \<^verbatim>\<open>get\<close> finds), and the key of the disabled
  query \<^verbatim>\<open>useItem('')\<close> has no entry.\<close>

definition coherent :: "Item list \<Rightarrow> QueryClient \<Rightarrow> bool" where
  "coherent mockItems qc \<longleftrightarrow>
     cache qc (ITEMS_QUERY_KEY @ [[]]) = None
     \<and> (\<forall>k e. cache qc k = Some e \<and> \<not> stale e \<longrightarrow>
           entry_error e = None
           \<and> ((k = ITEMS_QUERY_KEY \<and> entry_data e = Some (ItemsData mockItems))
              \<or> (\<exists>i item. k = ITEMS_QUERY_KEY @ [i] \<and> api_items_get i mockItems = Inr item
                    \<and> entry_data e = Some (ItemData item))))"

text \<open>Every entry whose key begins with the given key is stale.\<close>

definition all_stale_under :: "query_key \<Rightarrow> QueryClient \<Rightarrow> bool" where
  "all_stale_under queryKey qc \<longleftrightarrow> (\<forall>k e. cache qc k = Some e \<and> prefix queryKey k \<longrightarrow> stale e)"

text \<open>The data an entry holds, if the key has an entry with data.\<close>

definition held_data :: "QueryClient \<Rightarrow> query_key \<Rightarrow> query_data option" where
  "held_data qc k = (case cache qc k of None \<Rightarrow> None | Some e \<Rightarrow> entry_data e)"

text \<open>What the reads of the two query hooks give on a collection. \<^verbatim>\<open>useItems\<close> gives the
  collection and no error. \<^verbatim>\<open>useItem(id)\<close> with a non-empty identifier gives the record
  that \<^verbatim>\<open>get\<close> finds and no error; when \<^verbatim>\<open>get\<close> rejects it gives that error, next
  to the data the entry held before the read.\<close>

definition reads_current :: "Item list \<Rightarrow> QueryClient \<Rightarrow> bool" where
  "reads_current mockItems qc \<longleftrightarrow>
     fst (useItems mockItems qc)
       = \<lparr>result_data = Some (ItemsData mockItems), result_error = None\<rparr>
     \<and> (\<forall>i item. i \<noteq> [] \<and> api_items_get i mockItems = Inr item \<longrightarrow>
           fst (useItem i mockItems qc)
             = \<lparr>result_data = Some (ItemData item), result_error = None\<rparr>)
     \<and> (\<forall>i err. i \<noteq> [] \<and> api_items_get i mockItems = Inl err \<longrightarrow>
           fst (useItem i mockItems qc)
             = \<lparr>result_data = held_data qc (ITEMS_QUERY_KEY @ [i]), result_error = Some err\<rparr>)"

section \<open>The creation form (pages/CreateItemPage.tsx)\<close>

text \<open>
  The values of the form. The schema's \<^verbatim>\<open>min\<close> and \<^verbatim>\<open>max\<close> compare the
  \<^verbatim>\<open>length\<close> of the string, its number of code units; the status is \<open>None\<close> while
  nothing is selected.
\<close>

record CreateItemFormData =
  form_name :: string
  form_description :: string
  form_status :: "item_status option"

text \<open>\<^verbatim>\<open>formState.errors\<close>: one message for each field that failed.\<close>

record FormErrors =
  errors_name :: "string option"
  errors_description :: "string option"
  errors_status :: "string option"

text \<open>\<^verbatim>\<open>createItemSchema\<close>, with the bounds and the messages of the source: a name of
  3 to 50, a description of 10 to 200, a status. The result is the parsed data, or the
  field errors.\<close>

definition createItemSchema :: "CreateItemFormData \<Rightarrow> FormErrors + ItemData" where
  "createItemSchema f =
     (let errs =
        \<lparr>errors_name =
           (if length (form_name f) < 3 then Some ''Name must be at least 3 characters''
            else if length (form_name f) > 50 then Some ''Name must be less than 50 characters''
            else None),
         errors_description =
           (if length (form_description f) < 10
              then Some ''Description must be at least 10 characters''
            else if length (form_description f) > 200
              then Some ''Description must be less than 200 characters''
            else None),
         errors_status =
           (case form_status f of None \<Rightarrow> Some ''Please select a status'' | Some _ \<Rightarrow> None)\<rparr>
      in case form_status f of
           None \<Rightarrow> Inl errs
         | Some st \<Rightarrow>
             if errors_name errs = None \<and> errors_description errs = None
             then Inr \<lparr>data_name = form_name f, data_description = form_description f,
                       data_status = st\<rparr>
             else Inl errs)"

datatype toast_variant = success | error

text \<open>What the page does besides calling the client: a toast (title, description,
  variant) or a navigation.\<close>

datatype page_effect = Toast string string toast_variant | Navigate string

text \<open>\<^verbatim>\<open>onSubmit\<close>: awaits \<^verbatim>\<open>createItem.mutateAsync(data)\<close>, then toasts and navigates;
  the \<^verbatim>\<open>catch\<close> branch toasts the failure.\<close>

definition onSubmit ::
  "string \<Rightarrow> string \<Rightarrow> ItemData \<Rightarrow> Item list \<times> QueryClient
     \<Rightarrow> page_effect list \<times> Item list \<times> QueryClient" where
  "onSubmit rnd now d s =
     (case useCreateItem rnd now d s of
        (Inr _, s') \<Rightarrow>
          ([Toast ''Item created'' (data_name d @ '' has been created successfully'') success,
            Navigate ''/items''], s')
      | (Inl _, s') \<Rightarrow> ([Toast ''Error'' ''Failed to create item'' error], s'))"

text \<open>
  Modelled from the spec: \<^verbatim>\<open>handleSubmit\<close> belongs to the library react-hook-form (here
  with the zod resolver), whose code is not among the sources of the repository. Validation is synchronous and field-level against the fixed schema; a
  submission that fails it is rejected before any client call is made and the field
  errors are shown; a valid one is passed to \<^verbatim>\<open>onSubmit\<close>.
\<close>

definition handleSubmit ::
  "string \<Rightarrow> string \<Rightarrow> CreateItemFormData \<Rightarrow> Item list \<times> QueryClient
     \<Rightarrow> FormErrors option \<times> page_effect list \<times> Item list \<times> QueryClient" where
  "handleSubmit rnd now f s =
     (case createItemSchema f of
        Inl errs \<Rightarrow> (Some errs, [], s)
      | Inr d \<Rightarrow> (None, onSubmit rnd now d s))"

section \<open>Facts about the array primitives\<close>

lemma findIndex_None_iff: "findIndex P xs = None \<longleftrightarrow> (\<forall>x \<in> set xs. \<not> P x)"
  by (induction xs) auto

lemma findIndex_Some_bound: "findIndex P xs = Some k \<Longrightarrow> k < length xs \<and> P (xs ! k)"
proof (induction xs arbitrary: k)
  case Nil
  then show ?case by simp
next
  case (Cons x xs)
  then show ?case by (cases "P x") auto
qed

lemma findIndex_Some_first: "findIndex P xs = Some k \<Longrightarrow> j < k \<Longrightarrow> \<not> P (xs ! j)"
proof (induction xs arbitrary: k j)
  case Nil
  then show ?case by simp
next
  case (Cons x xs)
  show ?case
  proof (cases "P x")
    case True
    with Cons.prems show ?thesis by simp
  next
    case False
    with Cons.prems obtain k' where k': "findIndex P xs = Some k'" "k = Suc k'"
      by auto
    show ?thesis
    proof (cases j)
      case 0
      with False show ?thesis by simp
    next
      case (Suc j')
      with Cons.prems(2) k' have "j' < k'" by simp
      with Cons.IH k'(1) Suc show ?thesis by simp
    qed
  qed
qed

lemma find_eq_findIndex: "find P xs = map_option (\<lambda>k. xs ! k) (findIndex P xs)"
  by (induction xs) (auto simp: option.map_comp comp_def)

lemma findIndex_update_same:
  "findIndex P xs = Some k \<Longrightarrow> P y \<Longrightarrow> findIndex P (xs[k := y]) = Some k"
proof (induction xs arbitrary: k)
  case Nil
  then show ?case by simp
next
  case (Cons x xs)
  then show ?case by (cases "P x") auto
qed

lemma api_items_get_absent:
  "i \<notin> set (ids mockItems) \<Longrightarrow> api_items_get i mockItems = Inl ItemNotFound"
  by (auto simp: api_items_get_def ids_def find_None_iff split: option.splits)

lemma api_items_get_present:
  "i \<in> set (ids mockItems) \<Longrightarrow>
   \<exists>item. api_items_get i mockItems = Inr item \<and> item \<in> set mockItems \<and> id_field item = i"
proof -
  assume "i \<in> set (ids mockItems)"
  then have "find (\<lambda>item. id_field item = i) mockItems \<noteq> None"
    by (auto simp: ids_def find_None_iff)
  then obtain item where f: "find (\<lambda>item. id_field item = i) mockItems = Some item"
    by auto
  then have "item \<in> set mockItems \<and> id_field item = i"
    by (auto simp: find_Some_iff)
  with f show ?thesis by (simp add: api_items_get_def)
qed

lemma distinct_ids_unique:
  "distinct (ids mockItems) \<Longrightarrow> x \<in> set mockItems \<Longrightarrow> y \<in> set mockItems \<Longrightarrow>
   id_field x = id_field y \<Longrightarrow> x = y"
  unfolding ids_def by (meson distinct_map inj_onD)

lemma api_items_update_absent:
  assumes "i \<notin> set (ids mockItems)"
  shows "api_items_update i d mockItems = (Inl ItemNotFound, mockItems)"
proof -
  from assms have "\<forall>item \<in> set mockItems. \<not> id_field item = i"
    by (auto simp: ids_def)
  then have "findIndex (\<lambda>item. id_field item = i) mockItems = None"
    by (simp add: findIndex_None_iff)
  then show ?thesis by (simp add: api_items_update_def)
qed

lemma api_items_update_failure_unchanged:
  "api_items_update i d mockItems = (Inl err, mockItems') \<Longrightarrow>
   mockItems' = mockItems \<and> err = ItemNotFound \<and> i \<notin> set (ids mockItems)"
  by (auto simp: api_items_update_def Let_def ids_def findIndex_None_iff split: option.splits)

lemma filter_absent_id:
  "i \<notin> set (ids mockItems) \<Longrightarrow> filter (\<lambda>item. id_field item \<noteq> i) mockItems = mockItems"
  by (induction mockItems) (auto simp: ids_def)

lemma ids_delete: "ids (snd (api_items_delete i mockItems)) = removeAll i (ids mockItems)"
  by (induction mockItems) (auto simp: api_items_delete_def ids_def)

lemma api_items_update_present:
  assumes "i \<in> set (ids mockItems)"
  shows "\<exists>k. findIndex (\<lambda>item. id_field item = i) mockItems = Some k
             \<and> api_items_update i d mockItems
                 = (Inr (spread (mockItems ! k) d), mockItems[k := spread (mockItems ! k) d])"
proof -
  from assms have "\<exists>x \<in> set mockItems. id_field x = i" by (auto simp: ids_def)
  then have "findIndex (\<lambda>item. id_field item = i) mockItems \<noteq> None"
    by (simp add: findIndex_None_iff)
  then obtain k where "findIndex (\<lambda>item. id_field item = i) mockItems = Some k" by auto
  then show ?thesis by (simp add: api_items_update_def Let_def)
qed

lemma update_success_shape:
  assumes "api_items_update i d mockItems = (Inr r, mockItems')"
  shows "\<exists>k. findIndex (\<lambda>item. id_field item = i) mockItems = Some k
           \<and> k < length mockItems \<and> id_field (mockItems ! k) = i
           \<and> r = spread (mockItems ! k) d \<and> mockItems' = mockItems[k := r]"
proof (cases "findIndex (\<lambda>item. id_field item = i) mockItems")
  case None
  with assms show ?thesis by (simp add: api_items_update_def)
next
  case (Some k)
  with assms have "r = spread (mockItems ! k) d \<and> mockItems' = mockItems[k := r]"
    by (auto simp: api_items_update_def Let_def)
  with Some findIndex_Some_bound [OF Some] show ?thesis by simp
qed

lemma api_items_get_findIndex:
  "findIndex (\<lambda>item. id_field item = i) mockItems = Some k \<Longrightarrow>
   api_items_get i mockItems = Inr (mockItems ! k)"
  by (simp add: api_items_get_def find_eq_findIndex)

section \<open>Claims about the resource client\<close>

text \<open>
  Claim C1, as amended. For every collection and every creation input, \<^verbatim>\<open>create\<close>
  resolves with a record that has the given fields, the timestamp, and as identifier the
  text of the random draw after its first seven characters; the collection becomes the
  prior sequence with that record appended, so a following \<^verbatim>\<open>list\<close> is one longer and
  includes it. The identifier is distinct from every identifier in the collection exactly
  when that text is not already one of them: \<^verbatim>\<open>create\<close> compares it with nothing.
\<close>

theorem create_appends:
  "\<exists>newItem.
      api_items_create d rnd now mockItems = (Inr newItem, mockItems @ [newItem])
    \<and> newItem = \<lparr>id_field = drop 7 rnd, name = data_name d, description = data_description d,
                 status = data_status d, createdAt = now\<rparr>
    \<and> api_items_list (snd (api_items_create d rnd now mockItems)) = mockItems @ [newItem]
    \<and> length (api_items_list (snd (api_items_create d rnd now mockItems))) = length mockItems + 1
    \<and> newItem \<in> set (api_items_list (snd (api_items_create d rnd now mockItems)))
    \<and> ((id_field newItem \<notin> set (ids mockItems)) = (drop 7 rnd \<notin> set (ids mockItems)))
    \<and> (distinct (ids (snd (api_items_create d rnd now mockItems)))
         = (distinct (ids mockItems) \<and> drop 7 rnd \<notin> set (ids mockItems)))"
  by (auto simp: api_items_create_def api_items_list_def ids_def Let_def)

theorem create_appends_witness:
  "api_items_create widget ''0.4fzyo82mvyr'' ''T1'' (mockItems_init ''T0'')
     = (Inr \<lparr>id_field = ''82mvyr'', name = ''Widget'', description = ''A sample widget'',
              status = active, createdAt = ''T1''\<rparr>,
        mockItems_init ''T0'' @
          [\<lparr>id_field = ''82mvyr'', name = ''Widget'', description = ''A sample widget'',
              status = active, createdAt = ''T1''\<rparr>])
   \<and> length (api_items_list (snd (api_items_create widget ''0.4fzyo82mvyr'' ''T1''
        (mockItems_init ''T0'')))) = 3
   \<and> distinct (ids (snd (api_items_create widget ''0.4fzyo82mvyr'' ''T1''
        (mockItems_init ''T0''))))"
proof -
  have fresh: "distinct (ids (mockItems_init ''T0''))
               \<and> drop 7 ''0.4fzyo82mvyr'' \<notin> set (ids (mockItems_init ''T0''))"
    by (simp add: ids_def mockItems_init_def)
  have len: "length (mockItems_init ''T0'') + 1 = 3"
    by (simp add: mockItems_init_def)
  from create_appends [of widget "''0.4fzyo82mvyr''" "''T1''" "mockItems_init ''T0''"] fresh len
  show ?thesis by (auto simp: widget_def)
qed

text \<open>
  Claim C1 as stated fails: two calls of \<^verbatim>\<open>create\<close> during which \<^verbatim>\<open>Math.random()\<close>
  returns 0.5 (in base 36 the text \<^verbatim>\<open>0.i\<close>, of which nothing is left after seven
  characters) give both records the empty identifier.
\<close>

theorem create_duplicate_id_counterexample:
  "fst (api_items_create widget ''0.i'' ''T2''
          (snd (api_items_create widget ''0.i'' ''T1'' (mockItems_init ''T0''))))
     = Inr \<lparr>id_field = [], name = ''Widget'', description = ''A sample widget'',
            status = active, createdAt = ''T2''\<rparr>
   \<and> [] \<in> set (ids (snd (api_items_create widget ''0.i'' ''T1'' (mockItems_init ''T0''))))"
  by (simp add: api_items_create_def ids_def mockItems_init_def widget_def Let_def)

text \<open>
  Claim C2, as amended. For every collection, every identifier in it and every partial
  record that does not name \<^verbatim>\<open>id\<close> (or names it with the same identifier):
  \<^verbatim>\<open>update\<close> succeeds, and \<^verbatim>\<open>get\<close> of the identifier then returns the record
  \<^verbatim>\<open>update\<close> returned, in which each field named in the partial record has the given
  value and each other field has the value it had in the record \<^verbatim>\<open>get\<close> returned before
  the update.
\<close>

theorem update_then_get_merged:
  assumes present: "i \<in> set (ids mockItems)"
      and keep: "p_id d = None \<or> p_id d = Some i"
  shows "\<exists>r mockItems' old.
           api_items_update i d mockItems = (Inr r, mockItems')
         \<and> api_items_get i mockItems = Inr old
         \<and> api_items_get i mockItems' = Inr r
         \<and> id_field r = i
         \<and> name r = (case p_name d of None \<Rightarrow> name old | Some v \<Rightarrow> v)
         \<and> description r = (case p_description d of None \<Rightarrow> description old | Some v \<Rightarrow> v)
         \<and> status r = (case p_status d of None \<Rightarrow> status old | Some v \<Rightarrow> v)
         \<and> createdAt r = (case p_createdAt d of None \<Rightarrow> createdAt old | Some v \<Rightarrow> v)"
proof -
  from api_items_update_present [OF present, of d] obtain k where
    fk: "findIndex (\<lambda>item. id_field item = i) mockItems = Some k"
    and upd: "api_items_update i d mockItems
                 = (Inr (spread (mockItems ! k) d), mockItems[k := spread (mockItems ! k) d])"
    by blast
  let ?old = "mockItems ! k"
  let ?r = "spread ?old d"
  let ?ms' = "mockItems[k := ?r]"
  from findIndex_Some_bound [OF fk] have k: "k < length mockItems" "id_field ?old = i"
    by simp_all
  from keep k(2) have idr: "id_field ?r = i"
    by (auto simp: spread_def)
  from findIndex_update_same [OF fk, of ?r] idr
  have "findIndex (\<lambda>item. id_field item = i) ?ms' = Some k" by simp
  then have "api_items_get i ?ms' = Inr (?ms' ! k)"
    by (rule api_items_get_findIndex)
  with k(1) have g': "api_items_get i ?ms' = Inr ?r" by simp
  have g: "api_items_get i mockItems = Inr ?old"
    using fk by (rule api_items_get_findIndex)
  have "name ?r = (case p_name d of None \<Rightarrow> name ?old | Some v \<Rightarrow> v)"
    "description ?r = (case p_description d of None \<Rightarrow> description ?old | Some v \<Rightarrow> v)"
    "status ?r = (case p_status d of None \<Rightarrow> status ?old | Some v \<Rightarrow> v)"
    "createdAt ?r = (case p_createdAt d of None \<Rightarrow> createdAt ?old | Some v \<Rightarrow> v)"
    by (simp_all add: spread_def)
  with upd g g' idr show ?thesis by blast
qed

theorem update_then_get_merged_witness:
  "''1'' \<in> set (ids (mockItems_init ''T''))
   \<and> (\<exists>r mockItems'.
         api_items_update ''1'' \<lparr>p_id = None, p_name = Some ''X'', p_description = None,
           p_status = None, p_createdAt = None\<rparr> (mockItems_init ''T'') = (Inr r, mockItems')
       \<and> api_items_get ''1'' mockItems' = Inr r
       \<and> r = \<lparr>id_field = ''1'', name = ''X'', description = ''This is a sample item'',
              status = active, createdAt = ''T''\<rparr>)"
proof -
  let ?d = "\<lparr>p_id = None, p_name = Some ''X'', p_description = None,
        p_status = None, p_createdAt = None\<rparr>"
  have present: "''1'' \<in> set (ids (mockItems_init ''T''))"
    by (simp add: ids_def mockItems_init_def)
  have keep: "p_id ?d = None \<or> p_id ?d = Some ''1''" by simp
  have old: "api_items_get ''1'' (mockItems_init ''T'')
      = Inr \<lparr>id_field = ''1'', name = ''First Item'', description = ''This is a sample item'',
              status = active, createdAt = ''T''\<rparr>"
    by (simp add: api_items_get_def mockItems_init_def)
  from update_then_get_merged [OF present keep] obtain r mockItems' old where
    a: "api_items_update ''1'' ?d (mockItems_init ''T'') = (Inr r, mockItems')"
       "api_items_get ''1'' (mockItems_init ''T'') = Inr old"
       "api_items_get ''1'' mockItems' = Inr r"
       "id_field r = ''1''" "name r = (case p_name ?d of None \<Rightarrow> name old | Some v \<Rightarrow> v)"
       "description r = (case p_description ?d of None \<Rightarrow> description old | Some v \<Rightarrow> v)"
       "status r = (case p_status ?d of None \<Rightarrow> status old | Some v \<Rightarrow> v)"
       "createdAt r = (case p_createdAt ?d of None \<Rightarrow> createdAt old | Some v \<Rightarrow> v)"
    by blast
  from a(2) old have "old = \<lparr>id_field = ''1'', name = ''First Item'',
      description = ''This is a sample item'', status = active, createdAt = ''T''\<rparr>"
    by simp
  with a(4-8) have "r = \<lparr>id_field = ''1'', name = ''X'', description = ''This is a sample item'',
              status = active, createdAt = ''T''\<rparr>"
    by (cases r) simp
  with a(1,3) present show ?thesis by blast
qed

text \<open>
  Claim C2 as stated fails when the partial record names another \<^verbatim>\<open>id\<close>: the stored
  record is renamed, and \<^verbatim>\<open>get\<close> of the identifier that was updated rejects.
\<close>

theorem update_changes_id_counterexample:
  "api_items_update ''1'' \<lparr>p_id = Some ''3'', p_name = Some ''X'', p_description = None,
        p_status = None, p_createdAt = None\<rparr> (mockItems_init ''T'')
     = (Inr \<lparr>id_field = ''3'', name = ''X'', description = ''This is a sample item'',
              status = active, createdAt = ''T''\<rparr>,
        [\<lparr>id_field = ''3'', name = ''X'', description = ''This is a sample item'',
              status = active, createdAt = ''T''\<rparr>,
         \<lparr>id_field = ''2'', name = ''Second Item'', description = ''Another sample item'',
              status = inactive, createdAt = ''T''\<rparr>])
   \<and> api_items_get ''1'' (snd (api_items_update ''1'' \<lparr>p_id = Some ''3'', p_name = Some ''X'',
        p_description = None, p_status = None, p_createdAt = None\<rparr> (mockItems_init ''T'')))
     = Inl ItemNotFound"
  by (simp add: api_items_update_def api_items_get_def mockItems_init_def spread_def Let_def)

text \<open>
  Claim C3. For every collection and every identifier, \<^verbatim>\<open>get\<close> returns a stored record
  with that identifier when one exists (the first one in the array; the only one when the
  identifiers of the collection are distinct), and it rejects with "not found" exactly when
  no stored record has that identifier.
\<close>

theorem get_found_iff_present:
  "(api_items_get i mockItems = Inl ItemNotFound \<longleftrightarrow> i \<notin> set (ids mockItems))
   \<and> (i \<in> set (ids mockItems) \<longrightarrow>
        (\<exists>item. api_items_get i mockItems = Inr item \<and> item \<in> set mockItems
           \<and> id_field item = i
           \<and> (distinct (ids mockItems) \<longrightarrow>
                (\<forall>other \<in> set mockItems. id_field other = i \<longrightarrow> other = item))))"
proof (intro conjI impI)
  show "api_items_get i mockItems = Inl ItemNotFound \<longleftrightarrow> i \<notin> set (ids mockItems)"
    using api_items_get_absent api_items_get_present by fastforce
next
  assume "i \<in> set (ids mockItems)"
  then obtain item where it: "api_items_get i mockItems = Inr item" "item \<in> set mockItems"
    "id_field item = i"
    using api_items_get_present by blast
  then have "distinct (ids mockItems) \<longrightarrow>
               (\<forall>other \<in> set mockItems. id_field other = i \<longrightarrow> other = item)"
    using distinct_ids_unique by blast
  with it show "\<exists>item. api_items_get i mockItems = Inr item \<and> item \<in> set mockItems
           \<and> id_field item = i
           \<and> (distinct (ids mockItems) \<longrightarrow>
                (\<forall>other \<in> set mockItems. id_field other = i \<longrightarrow> other = item))"
    by blast
qed

theorem get_found_iff_present_witness:
  "''2'' \<in> set (ids (mockItems_init ''T''))
   \<and> distinct (ids (mockItems_init ''T''))
   \<and> api_items_get ''3'' (mockItems_init ''T'') = Inl ItemNotFound
   \<and> (\<exists>item. api_items_get ''2'' (mockItems_init ''T'') = Inr item
         \<and> item \<in> set (mockItems_init ''T'') \<and> id_field item = ''2''
         \<and> (\<forall>other \<in> set (mockItems_init ''T''). id_field other = ''2'' \<longrightarrow> other = item))"
  using get_found_iff_present [of "''2''" "mockItems_init ''T''"]
    get_found_iff_present [of "''3''" "mockItems_init ''T''"]
  by (simp add: ids_def mockItems_init_def)

text \<open>
  Claim C4. For every collection and every identifier that no stored record has,
  \<^verbatim>\<open>update\<close> rejects with "not found" and the collection is left as it was, so that a
  following \<^verbatim>\<open>list\<close> returns exactly the collection of before the call.
\<close>

theorem update_absent_rejects_unchanged:
  assumes "i \<notin> set (ids mockItems)"
  shows "api_items_update i d mockItems = (Inl ItemNotFound, mockItems)
         \<and> api_items_list (snd (api_items_update i d mockItems)) = api_items_list mockItems"
  using assms by (simp add: api_items_update_absent)

theorem update_absent_rejects_unchanged_witness:
  "''nonexistent-id'' \<notin> set (ids (mockItems_init ''T''))
   \<and> api_items_update ''nonexistent-id'' \<lparr>p_id = None, p_name = Some ''X'', p_description = None,
        p_status = None, p_createdAt = None\<rparr> (mockItems_init ''T'')
       = (Inl ItemNotFound, mockItems_init ''T'')"
proof -
  have h: "''nonexistent-id'' \<notin> set (ids (mockItems_init ''T''))"
    by (simp add: ids_def mockItems_init_def)
  from update_absent_rejects_unchanged [OF h] h show ?thesis by simp
qed

text \<open>
  Claim C5. For every collection and every identifier, \<^verbatim>\<open>delete\<close> resolves: the records
  with that identifier are removed and the others are kept in their order; when no record
  has the identifier the collection is unchanged; deleting the same identifier a second
  time changes nothing more; and \<^verbatim>\<open>get\<close> of that identifier right after the deletion
  rejects with "not found".
\<close>

theorem delete_idempotent_then_get_rejects:
  "fst (api_items_delete i mockItems) = Inr ()
   \<and> snd (api_items_delete i mockItems) = filter (\<lambda>item. id_field item \<noteq> i) mockItems
   \<and> set (snd (api_items_delete i mockItems)) = {item \<in> set mockItems. id_field item \<noteq> i}
   \<and> (i \<notin> set (ids mockItems) \<longrightarrow> snd (api_items_delete i mockItems) = mockItems)
   \<and> api_items_delete i (snd (api_items_delete i mockItems)) = api_items_delete i mockItems
   \<and> api_items_get i (snd (api_items_delete i mockItems)) = Inl ItemNotFound"
proof (intro conjI impI)
  show "fst (api_items_delete i mockItems) = Inr ()"
    by (simp add: api_items_delete_def)
  show "snd (api_items_delete i mockItems) = filter (\<lambda>item. id_field item \<noteq> i) mockItems"
    by (simp add: api_items_delete_def)
  show "set (snd (api_items_delete i mockItems)) = {item \<in> set mockItems. id_field item \<noteq> i}"
    by (auto simp: api_items_delete_def)
  show "snd (api_items_delete i mockItems) = mockItems" if "i \<notin> set (ids mockItems)"
    using that by (simp add: api_items_delete_def filter_absent_id)
  show "api_items_delete i (snd (api_items_delete i mockItems)) = api_items_delete i mockItems"
    by (simp add: api_items_delete_def)
  have "i \<notin> set (ids (snd (api_items_delete i mockItems)))"
    by (simp add: ids_delete)
  then show "api_items_get i (snd (api_items_delete i mockItems)) = Inl ItemNotFound"
    by (rule api_items_get_absent)
qed

theorem delete_idempotent_then_get_rejects_witness:
  "''9'' \<notin> set (ids (mockItems_init ''T''))
   \<and> snd (api_items_delete ''9'' (mockItems_init ''T'')) = mockItems_init ''T''
   \<and> ids (snd (api_items_delete ''1'' (mockItems_init ''T''))) = [''2'']
   \<and> api_items_get ''1'' (snd (api_items_delete ''1'' (mockItems_init ''T''))) = Inl ItemNotFound"
  using delete_idempotent_then_get_rejects [of "''9''" "mockItems_init ''T''"]
    delete_idempotent_then_get_rejects [of "''1''" "mockItems_init ''T''"]
  by (simp add: ids_def mockItems_init_def api_items_delete_def)

text \<open>
  Claim C9. The partial record given to \<^verbatim>\<open>update\<close> may name \<^verbatim>\<open>id\<close>, and the merge then
  overwrites the identifier of the stored record with it. So from every collection with
  distinct identifiers that holds both \<open>a\<close> and \<open>b\<close>, \<^verbatim>\<open>update(a, {id: b})\<close> succeeds and
  leaves a collection whose identifiers are no longer distinct.
\<close>

theorem update_overwrites_id_breaking_uniqueness:
  assumes pid: "p_id d = Some b"
  shows "(\<forall>r mockItems'. api_items_update a d mockItems = (Inr r, mockItems') \<longrightarrow>
            id_field r = b \<and> r \<in> set mockItems' \<and> b \<in> set (ids mockItems'))
       \<and> (distinct (ids mockItems) \<and> a \<in> set (ids mockItems) \<and> b \<in> set (ids mockItems)
            \<and> a \<noteq> b \<longrightarrow>
            (\<exists>r mockItems'. api_items_update a d mockItems = (Inr r, mockItems')
               \<and> \<not> distinct (ids mockItems')))"
proof (rule conjI)
  show "\<forall>r mockItems'. api_items_update a d mockItems = (Inr r, mockItems') \<longrightarrow>
            id_field r = b \<and> r \<in> set mockItems' \<and> b \<in> set (ids mockItems')"
  proof (intro allI impI)
    fix r mockItems'
    assume upd: "api_items_update a d mockItems = (Inr r, mockItems')"
    from update_success_shape [OF upd] obtain k where
      k: "k < length mockItems" "r = spread (mockItems ! k) d" "mockItems' = mockItems[k := r]"
      by blast
    from k(2) pid have "id_field r = b" by (simp add: spread_def)
    moreover from k(1,3) have "r \<in> set mockItems'" by (simp add: set_update_memI)
    ultimately show "id_field r = b \<and> r \<in> set mockItems' \<and> b \<in> set (ids mockItems')"
      by (auto simp: ids_def)
  qed
next
  show "distinct (ids mockItems) \<and> a \<in> set (ids mockItems) \<and> b \<in> set (ids mockItems)
            \<and> a \<noteq> b \<longrightarrow>
            (\<exists>r mockItems'. api_items_update a d mockItems = (Inr r, mockItems')
               \<and> \<not> distinct (ids mockItems'))"
  proof
    assume h: "distinct (ids mockItems) \<and> a \<in> set (ids mockItems) \<and> b \<in> set (ids mockItems)
              \<and> a \<noteq> b"
    then have "\<exists>x \<in> set mockItems. id_field x = a" by (auto simp: ids_def)
    then have "findIndex (\<lambda>item. id_field item = a) mockItems \<noteq> None"
      by (simp add: findIndex_None_iff)
    then obtain k where fk: "findIndex (\<lambda>item. id_field item = a) mockItems = Some k" by auto
    from findIndex_Some_bound [OF fk]
    have k: "k < length mockItems" "id_field (mockItems ! k) = a"
      by simp_all
    define r where "r = spread (mockItems ! k) d"
    have upd: "api_items_update a d mockItems = (Inr r, mockItems[k := r])"
      using fk by (simp add: api_items_update_def r_def Let_def)
    have idr: "id_field r = b" using pid by (simp add: r_def spread_def)
    from h obtain j where j: "j < length mockItems" "id_field (mockItems ! j) = b"
      by (auto simp: ids_def in_set_conv_nth)
    with k h have jk: "j \<noteq> k" by auto
    let ?ms' = "mockItems[k := r]"
    have "ids ?ms' ! j = b" using j jk by (simp add: ids_def)
    moreover have "ids ?ms' ! k = b" using k idr by (simp add: ids_def)
    moreover have "j < length (ids ?ms')" "k < length (ids ?ms')"
      using j k by (simp_all add: ids_def)
    ultimately have "\<not> distinct (ids ?ms')"
      using jk by (metis nth_eq_iff_index_eq)
    with upd show "\<exists>r mockItems'. api_items_update a d mockItems = (Inr r, mockItems')
                 \<and> \<not> distinct (ids mockItems')"
      by blast
  qed
qed

theorem update_overwrites_id_breaking_uniqueness_witness:
  "distinct (ids (mockItems_init ''T''))
   \<and> (\<exists>r mockItems'.
        api_items_update ''1'' \<lparr>p_id = Some ''2'', p_name = None, p_description = None,
          p_status = None, p_createdAt = None\<rparr> (mockItems_init ''T'') = (Inr r, mockItems')
        \<and> \<not> distinct (ids mockItems'))
   \<and> ids (snd (api_items_update ''1'' \<lparr>p_id = Some ''2'', p_name = None, p_description = None,
          p_status = None, p_createdAt = None\<rparr> (mockItems_init ''T''))) = [''2'', ''2'']"
proof -
  let ?d = "\<lparr>p_id = Some ''2'', p_name = None, p_description = None,
          p_status = None, p_createdAt = None\<rparr>"
  have p: "p_id ?d = Some ''2''" by simp
  have h: "distinct (ids (mockItems_init ''T'')) \<and> ''1'' \<in> set (ids (mockItems_init ''T''))
           \<and> ''2'' \<in> set (ids (mockItems_init ''T'')) \<and> ''1'' \<noteq> ''2''"
    by (simp add: ids_def mockItems_init_def)
  have e: "ids (snd (api_items_update ''1'' ?d (mockItems_init ''T''))) = [''2'', ''2'']"
    by (simp add: api_items_update_def mockItems_init_def spread_def ids_def Let_def)
  from update_overwrites_id_breaking_uniqueness [OF p, of "''1''" "mockItems_init ''T''"] h e
  show ?thesis by blast
qed

section \<open>Facts about the query-cache layer\<close>

lemma cache_invalidateQueries:
  "cache (invalidateQueries queryKey qc) k
     = map_option (\<lambda>e. if prefix queryKey k then e\<lparr>stale := True\<rparr> else e) (cache qc k)"
  by (simp add: invalidateQueries_def)

lemma events_invalidateQueries:
  "events (invalidateQueries queryKey qc) = events qc @ [Invalidated queryKey]"
  by (simp add: invalidateQueries_def)

lemma invalidateQueries_stale:
  "cache (invalidateQueries queryKey qc) k = Some e \<Longrightarrow> prefix queryKey k \<Longrightarrow> stale e"
  by (auto simp: cache_invalidateQueries)

lemma held_data_invalidateQueries:
  "held_data (invalidateQueries queryKey qc) k = held_data qc k"
  by (cases "cache qc k") (simp_all add: held_data_def cache_invalidateQueries)

lemma held_data_events: "held_data (qc\<lparr>events := ev\<rparr>) k = held_data qc k"
  by (simp add: held_data_def)

lemma useMutation_failure:
  "mutationFn variables (fst s) = (Inl err, mockItems') \<Longrightarrow>
   useMutation mutationFn onSuccess variables s
     = (Inl err, mockItems', (snd s)\<lparr>events := events (snd s) @ [MutationCalled, MutationFailed]\<rparr>)"
  by (simp add: useMutation_def Let_def)

lemma useMutation_success:
  "mutationFn variables (fst s) = (Inr result, mockItems') \<Longrightarrow>
   useMutation mutationFn onSuccess variables s
     = (Inr result, mockItems',
        onSuccess result variables
          ((snd s)\<lparr>events := events (snd s) @ [MutationCalled, MutationSucceeded]\<rparr>))"
  by (simp add: useMutation_def Let_def)

lemma useQuery_refetch:
  "enabled \<Longrightarrow> (\<forall>e. cache qc queryKey = Some e \<longrightarrow> stale e) \<Longrightarrow>
   useQuery queryKey queryFn enabled mockItems qc
     = (observe (settle (cache qc queryKey) (queryFn mockItems)),
        qc\<lparr>cache := (cache qc)(queryKey \<mapsto> settle (cache qc queryKey) (queryFn mockItems))\<rparr>)"
  by (auto simp: useQuery_def Let_def split: option.splits)

lemma useQuery_fresh:
  "cache qc queryKey = Some e \<Longrightarrow> \<not> stale e \<Longrightarrow>
   useQuery queryKey queryFn enabled mockItems qc = (observe e, qc)"
  by (simp add: useQuery_def Let_def)

lemma useQuery_disabled:
  "useQuery queryKey queryFn False mockItems qc
     = (case cache qc queryKey of
          None \<Rightarrow> \<lparr>result_data = None, result_error = None\<rparr>
        | Some e \<Rightarrow> observe e, qc)"
  by (simp add: useQuery_def Let_def split: option.splits)

lemma observe_settle_success:
  "observe (settle old (Inr d)) = \<lparr>result_data = Some d, result_error = None\<rparr>"
  by (simp add: observe_def settle_def)

lemma observe_settle_failure:
  "observe (settle (cache qc k) (Inl err))
     = \<lparr>result_data = held_data qc k, result_error = Some err\<rparr>"
  by (simp add: observe_def settle_def held_data_def)

lemma useCreateItem_eq:
  "useCreateItem rnd now d s
     = (fst (api_items_create d rnd now (fst s)), snd (api_items_create d rnd now (fst s)),
        invalidateQueries ITEMS_QUERY_KEY
          ((snd s)\<lparr>events := events (snd s) @ [MutationCalled, MutationSucceeded]\<rparr>))"
  by (simp add: useCreateItem_def useMutation_def api_items_create_def Let_def)

lemma useDeleteItem_eq:
  "useDeleteItem i s
     = (Inr (), snd (api_items_delete i (fst s)),
        invalidateQueries ITEMS_QUERY_KEY
          ((snd s)\<lparr>events := events (snd s) @ [MutationCalled, MutationSucceeded]\<rparr>))"
  by (simp add: useDeleteItem_def useMutation_def api_items_delete_def Let_def)

lemma useUpdateItem_success:
  "api_items_update i d (fst s) = (Inr r, mockItems') \<Longrightarrow>
   useUpdateItem (i, d) s
     = (Inr r, mockItems',
        invalidateQueries (ITEMS_QUERY_KEY @ [i])
          (invalidateQueries ITEMS_QUERY_KEY
            ((snd s)\<lparr>events := events (snd s) @ [MutationCalled, MutationSucceeded]\<rparr>)))"
  by (simp add: useUpdateItem_def useMutation_def Let_def)

lemma useUpdateItem_failure:
  "api_items_update i d (fst s) = (Inl err, mockItems') \<Longrightarrow>
   useUpdateItem (i, d) s
     = (Inl err, mockItems',
        (snd s)\<lparr>events := events (snd s) @ [MutationCalled, MutationFailed]\<rparr>)"
  by (simp add: useUpdateItem_def useMutation_def Let_def)

lemma all_stale_invalidate: "all_stale_under queryKey (invalidateQueries queryKey qc)"
  unfolding all_stale_under_def using invalidateQueries_stale by blast

lemma all_stale_invalidate_again:
  "all_stale_under key1 qc \<Longrightarrow> all_stale_under key1 (invalidateQueries key2 qc)"
  unfolding all_stale_under_def by (auto simp: cache_invalidateQueries)

lemma useItems_refetch_result:
  assumes "\<forall>e. cache qc ITEMS_QUERY_KEY = Some e \<longrightarrow> stale e"
  shows "fst (useItems mockItems qc)
           = \<lparr>result_data = Some (ItemsData mockItems), result_error = None\<rparr>"
  using assms
  by (simp add: useItems_def useQuery_refetch observe_settle_success api_items_list_def)

lemma useItem_refetch_found:
  assumes "\<forall>e. cache qc (ITEMS_QUERY_KEY @ [i]) = Some e \<longrightarrow> stale e" "i \<noteq> []"
    and "api_items_get i mockItems = Inr item"
  shows "fst (useItem i mockItems qc)
           = \<lparr>result_data = Some (ItemData item), result_error = None\<rparr>"
  using assms
  by (simp add: useItem_def useQuery_refetch observe_settle_success item_queryFn_def)

lemma useItem_refetch_rejected:
  assumes "\<forall>e. cache qc (ITEMS_QUERY_KEY @ [i]) = Some e \<longrightarrow> stale e" "i \<noteq> []"
    and "api_items_get i mockItems = Inl err"
  shows "fst (useItem i mockItems qc)
           = \<lparr>result_data = held_data qc (ITEMS_QUERY_KEY @ [i]), result_error = Some err\<rparr>"
  using assms
  by (simp add: useItem_def useQuery_refetch observe_settle_failure item_queryFn_def)

lemma all_stale_reads_current:
  assumes "all_stale_under ITEMS_QUERY_KEY qc"
  shows "reads_current mockItems qc"
proof -
  have l: "\<forall>e. cache qc ITEMS_QUERY_KEY = Some e \<longrightarrow> stale e"
    using assms unfolding all_stale_under_def by blast
  have m: "\<forall>e. cache qc (ITEMS_QUERY_KEY @ [i]) = Some e \<longrightarrow> stale e" for i
    using assms unfolding all_stale_under_def by (meson prefixI)
  show ?thesis
    unfolding reads_current_def
    using useItems_refetch_result [OF l] useItem_refetch_found [OF m]
      useItem_refetch_rejected [OF m]
    by blast
qed

lemma coherent_init: "coherent mockItems QueryClient_init"
  by (simp add: coherent_def QueryClient_init_def)

lemma coherent_events: "coherent mockItems (qc\<lparr>events := ev\<rparr>) = coherent mockItems qc"
  by (simp add: coherent_def)

lemma coherent_key_prefix:
  assumes "coherent mockItems qc" "cache qc k = Some e" "\<not> stale e"
  shows "prefix ITEMS_QUERY_KEY k"
proof -
  from assms have "k = ITEMS_QUERY_KEY \<or> (\<exists>i. k = ITEMS_QUERY_KEY @ [i])"
    unfolding coherent_def by blast
  then show ?thesis by auto
qed

lemma coherent_fresh_list:
  assumes "coherent mockItems qc" "cache qc ITEMS_QUERY_KEY = Some e" "\<not> stale e"
  shows "observe e = \<lparr>result_data = Some (ItemsData mockItems), result_error = None\<rparr>"
proof -
  from assms have "entry_error e = None
      \<and> ((ITEMS_QUERY_KEY = ITEMS_QUERY_KEY \<and> entry_data e = Some (ItemsData mockItems))
         \<or> (\<exists>i item. ITEMS_QUERY_KEY = ITEMS_QUERY_KEY @ [i]
               \<and> api_items_get i mockItems = Inr item \<and> entry_data e = Some (ItemData item)))"
    unfolding coherent_def by blast
  then show ?thesis by (simp add: observe_def)
qed

lemma coherent_fresh_item:
  assumes "coherent mockItems qc" "cache qc (ITEMS_QUERY_KEY @ [i]) = Some e" "\<not> stale e"
  shows "\<exists>item. api_items_get i mockItems = Inr item
           \<and> observe e = \<lparr>result_data = Some (ItemData item), result_error = None\<rparr>"
proof -
  from assms have "entry_error e = None
      \<and> ((ITEMS_QUERY_KEY @ [i] = ITEMS_QUERY_KEY \<and> entry_data e = Some (ItemsData mockItems))
         \<or> (\<exists>j item. ITEMS_QUERY_KEY @ [i] = ITEMS_QUERY_KEY @ [j]
               \<and> api_items_get j mockItems = Inr item \<and> entry_data e = Some (ItemData item)))"
    unfolding coherent_def by blast
  then show ?thesis by (auto simp: observe_def)
qed

lemma coherent_invalidate_all:
  assumes "coherent mockItems qc"
  shows "coherent mockItems' (invalidateQueries ITEMS_QUERY_KEY qc)"
proof -
  have "stale e" if "cache (invalidateQueries ITEMS_QUERY_KEY qc) k = Some e" for k e
  proof -
    from that obtain e0 where e0: "cache qc k = Some e0"
      "e = (if prefix ITEMS_QUERY_KEY k then e0\<lparr>stale := True\<rparr> else e0)"
      by (auto simp: cache_invalidateQueries)
    show ?thesis
    proof (cases "stale e0")
      case True
      with e0 show ?thesis by simp
    next
      case False
      with assms e0(1) have "prefix ITEMS_QUERY_KEY k" by (rule coherent_key_prefix)
      with e0 show ?thesis by simp
    qed
  qed
  moreover from assms have "cache (invalidateQueries ITEMS_QUERY_KEY qc) (ITEMS_QUERY_KEY @ [[]]) = None"
    by (simp add: cache_invalidateQueries coherent_def)
  ultimately show ?thesis unfolding coherent_def by blast
qed

lemma coherent_invalidate_more:
  assumes "coherent mockItems qc"
  shows "coherent mockItems (invalidateQueries queryKey qc)"
proof -
  have "cache qc k = Some e"
    if "cache (invalidateQueries queryKey qc) k = Some e" "\<not> stale e" for k e
  proof -
    from that obtain e0 where e0: "cache qc k = Some e0"
      "e = (if prefix queryKey k then e0\<lparr>stale := True\<rparr> else e0)"
      by (auto simp: cache_invalidateQueries)
    with that(2) have "e = e0" by (auto split: if_splits)
    with e0(1) show ?thesis by simp
  qed
  moreover from assms have "cache (invalidateQueries queryKey qc) (ITEMS_QUERY_KEY @ [[]]) = None"
    by (simp add: cache_invalidateQueries coherent_def)
  ultimately show ?thesis using assms unfolding coherent_def by blast
qed

lemma coherent_store:
  assumes c: "coherent mockItems qc"
    and k: "k = ITEMS_QUERY_KEY \<or> (\<exists>i. i \<noteq> [] \<and> k = ITEMS_QUERY_KEY @ [i])"
    and e: "\<not> stale e \<longrightarrow> entry_error e = None
              \<and> ((k = ITEMS_QUERY_KEY \<and> entry_data e = Some (ItemsData mockItems))
                 \<or> (\<exists>i item. k = ITEMS_QUERY_KEY @ [i] \<and> api_items_get i mockItems = Inr item
                       \<and> entry_data e = Some (ItemData item)))"
  shows "coherent mockItems (qc\<lparr>cache := (cache qc)(k \<mapsto> e)\<rparr>)"
proof -
  from k have ne: "k \<noteq> ITEMS_QUERY_KEY @ [[]]" by (auto simp: ITEMS_QUERY_KEY_def)
  with c have "cache (qc\<lparr>cache := (cache qc)(k \<mapsto> e)\<rparr>) (ITEMS_QUERY_KEY @ [[]]) = None"
    by (simp add: coherent_def)
  moreover have "entry_error e' = None
           \<and> ((k' = ITEMS_QUERY_KEY \<and> entry_data e' = Some (ItemsData mockItems))
              \<or> (\<exists>i item. k' = ITEMS_QUERY_KEY @ [i] \<and> api_items_get i mockItems = Inr item
                    \<and> entry_data e' = Some (ItemData item)))"
    if "cache (qc\<lparr>cache := (cache qc)(k \<mapsto> e)\<rparr>) k' = Some e'" "\<not> stale e'" for k' e'
  proof (cases "k' = k")
    case True
    with that have "e' = e" by simp
    with that(2) e True show ?thesis by blast
  next
    case False
    with that have "cache qc k' = Some e'" by simp
    with c that(2) show ?thesis unfolding coherent_def by blast
  qed
  ultimately show ?thesis unfolding coherent_def by blast
qed

lemma coherent_useItems: "coherent mockItems qc \<Longrightarrow> coherent mockItems (snd (useItems mockItems qc))"
proof -
  assume c: "coherent mockItems qc"
  let ?e = "settle (cache qc ITEMS_QUERY_KEY) (Inr (ItemsData mockItems))"
  have "coherent mockItems (qc\<lparr>cache := (cache qc)(ITEMS_QUERY_KEY \<mapsto> ?e)\<rparr>)"
    using c by (rule coherent_store) (simp_all add: settle_def)
  with c show ?thesis
    by (auto simp: useItems_def useQuery_def Let_def api_items_list_def split: option.splits)
qed

lemma coherent_useItem: "coherent mockItems qc \<Longrightarrow> coherent mockItems (snd (useItem i mockItems qc))"
proof (cases "i = []")
  case True
  assume "coherent mockItems qc"
  with True show ?thesis by (simp add: useItem_def useQuery_disabled)
next
  case False
  assume c: "coherent mockItems qc"
  let ?k = "ITEMS_QUERY_KEY @ [i]"
  let ?e = "settle (cache qc ?k) (item_queryFn i mockItems)"
  have "\<not> stale ?e \<longrightarrow> entry_error ?e = None
              \<and> ((?k = ITEMS_QUERY_KEY \<and> entry_data ?e = Some (ItemsData mockItems))
                 \<or> (\<exists>j item. ?k = ITEMS_QUERY_KEY @ [j] \<and> api_items_get j mockItems = Inr item
                       \<and> entry_data ?e = Some (ItemData item)))"
    by (cases "api_items_get i mockItems") (simp_all add: settle_def item_queryFn_def)
  with c False have "coherent mockItems (qc\<lparr>cache := (cache qc)(?k \<mapsto> ?e)\<rparr>)"
    by (intro coherent_store) auto
  with c show ?thesis
    by (auto simp: useItem_def useQuery_def Let_def split: option.splits)
qed

lemma coherent_reads_current:
  assumes c: "coherent mockItems qc"
  shows "reads_current mockItems qc"
proof -
  have l: "fst (useItems mockItems qc)
       = \<lparr>result_data = Some (ItemsData mockItems), result_error = None\<rparr>"
  proof (cases "\<forall>e. cache qc ITEMS_QUERY_KEY = Some e \<longrightarrow> stale e")
    case True
    then show ?thesis by (rule useItems_refetch_result)
  next
    case False
    then obtain e where e: "cache qc ITEMS_QUERY_KEY = Some e" "\<not> stale e" by blast
    from coherent_fresh_list [OF c e] e show ?thesis
      by (simp add: useItems_def useQuery_fresh)
  qed
  have f: "fst (useItem i mockItems qc)
             = \<lparr>result_data = Some (ItemData item), result_error = None\<rparr>"
    if "i \<noteq> []" "api_items_get i mockItems = Inr item" for i item
  proof (cases "\<forall>e. cache qc (ITEMS_QUERY_KEY @ [i]) = Some e \<longrightarrow> stale e")
    case True
    from True that show ?thesis by (rule useItem_refetch_found)
  next
    case False
    then obtain e where e: "cache qc (ITEMS_QUERY_KEY @ [i]) = Some e" "\<not> stale e" by blast
    from coherent_fresh_item [OF c e] that(2) e show ?thesis
      by (auto simp: useItem_def useQuery_fresh)
  qed
  have r: "fst (useItem i mockItems qc)
             = \<lparr>result_data = held_data qc (ITEMS_QUERY_KEY @ [i]), result_error = Some err\<rparr>"
    if "i \<noteq> []" "api_items_get i mockItems = Inl err" for i err
  proof (cases "\<forall>e. cache qc (ITEMS_QUERY_KEY @ [i]) = Some e \<longrightarrow> stale e")
    case True
    from True that show ?thesis by (rule useItem_refetch_rejected)
  next
    case False
    then obtain e where e: "cache qc (ITEMS_QUERY_KEY @ [i]) = Some e" "\<not> stale e" by blast
    from coherent_fresh_item [OF c e] that(2) show ?thesis by auto
  qed
  from l f r show ?thesis unfolding reads_current_def by blast
qed

lemma useItem_empty_result:
  "coherent mockItems qc \<Longrightarrow>
   useItem [] mockItems qc = (\<lparr>result_data = None, result_error = None\<rparr>, qc)"
  by (simp add: useItem_def useQuery_disabled coherent_def)

lemma coherent_step: "coherent (fst s) (snd s) \<Longrightarrow> coherent (fst (step x s)) (snd (step x s))"
proof (cases x)
  case OpList
  assume "coherent (fst s) (snd s)"
  with OpList show ?thesis by (simp add: coherent_useItems)
next
  case (OpGet i)
  assume "coherent (fst s) (snd s)"
  with OpGet show ?thesis by (simp add: coherent_useItem)
next
  case (OpCreate d rnd now)
  assume "coherent (fst s) (snd s)"
  then have "coherent (fst s) ((snd s)\<lparr>events := events (snd s) @ [MutationCalled, MutationSucceeded]\<rparr>)"
    by (simp add: coherent_events)
  with OpCreate show ?thesis by (simp add: useCreateItem_eq coherent_invalidate_all)
next
  case (OpDelete i)
  assume "coherent (fst s) (snd s)"
  then have "coherent (fst s) ((snd s)\<lparr>events := events (snd s) @ [MutationCalled, MutationSucceeded]\<rparr>)"
    by (simp add: coherent_events)
  with OpDelete show ?thesis by (simp add: useDeleteItem_eq coherent_invalidate_all)
next
  case (OpUpdate i d)
  assume c: "coherent (fst s) (snd s)"
  obtain res mockItems' where u: "api_items_update i d (fst s) = (res, mockItems')"
    by (cases "api_items_update i d (fst s)")
  show ?thesis
  proof (cases res)
    case (Inl err)
    with u api_items_update_failure_unchanged have "mockItems' = fst s" by blast
    with u Inl OpUpdate c show ?thesis
      by (simp add: useUpdateItem_failure coherent_events)
  next
    case (Inr r)
    from c have "coherent (fst s) ((snd s)\<lparr>events := events (snd s) @ [MutationCalled, MutationSucceeded]\<rparr>)"
      by (simp add: coherent_events)
    then have "coherent mockItems' (invalidateQueries (ITEMS_QUERY_KEY @ [i])
          (invalidateQueries ITEMS_QUERY_KEY
            ((snd s)\<lparr>events := events (snd s) @ [MutationCalled, MutationSucceeded]\<rparr>)))"
      by (intro coherent_invalidate_more coherent_invalidate_all)
    with u Inr OpUpdate show ?thesis by (simp add: useUpdateItem_success)
  qed
qed

lemma coherent_run: "coherent (fst s) (snd s) \<Longrightarrow> coherent (fst (run ops s)) (snd (run ops s))"
proof (induction ops arbitrary: s)
  case Nil
  then show ?case by simp
next
  case (Cons x xs)
  from Cons.prems have "coherent (fst (step x s)) (snd (step x s))" by (rule coherent_step)
  then show ?case using Cons.IH by simp
qed

lemma api_items_get_append_fresh:
  "id_field x \<notin> set (ids mockItems) \<Longrightarrow> api_items_get (id_field x) (mockItems @ [x]) = Inr x"
  by (induction mockItems) (auto simp: api_items_get_def ids_def)

lemma useCreateItem_effect:
  assumes "useCreateItem rnd now d s = (res, mockItems', qc')"
  shows "events qc' = events (snd s) @ [MutationCalled, MutationSucceeded, Invalidated ITEMS_QUERY_KEY]
       \<and> all_stale_under ITEMS_QUERY_KEY qc' \<and> reads_current mockItems' qc'
       \<and> (\<exists>newItem. res = Inr newItem \<and> mockItems' = fst s @ [newItem]
             \<and> fst (useItems mockItems' qc')
                 = \<lparr>result_data = Some (ItemsData (fst s @ [newItem])), result_error = None\<rparr>
             \<and> (id_field newItem \<noteq> [] \<and> id_field newItem \<notin> set (ids (fst s)) \<longrightarrow>
                   fst (useItem (id_field newItem) mockItems' qc')
                     = \<lparr>result_data = Some (ItemData newItem), result_error = None\<rparr>))"
proof -
  let ?qc = "(snd s)\<lparr>events := events (snd s) @ [MutationCalled, MutationSucceeded]\<rparr>"
  from assms have qc': "qc' = invalidateQueries ITEMS_QUERY_KEY ?qc"
    and res: "res = fst (api_items_create d rnd now (fst s))"
    and ms': "mockItems' = snd (api_items_create d rnd now (fst s))"
    by (simp_all add: useCreateItem_eq)
  have st: "all_stale_under ITEMS_QUERY_KEY qc'"
    unfolding qc' by (rule all_stale_invalidate)
  then have rc: "reads_current mockItems' qc'" by (rule all_stale_reads_current)
  have ev: "events qc' = events (snd s) @ [MutationCalled, MutationSucceeded, Invalidated ITEMS_QUERY_KEY]"
    by (simp add: qc' events_invalidateQueries)
  obtain newItem where n: "res = Inr newItem" "mockItems' = fst s @ [newItem]"
    using res ms' by (simp add: api_items_create_def Let_def)
  from rc n(2) have l: "fst (useItems mockItems' qc')
      = \<lparr>result_data = Some (ItemsData (fst s @ [newItem])), result_error = None\<rparr>"
    by (simp add: reads_current_def)
  have "fst (useItem (id_field newItem) mockItems' qc')
          = \<lparr>result_data = Some (ItemData newItem), result_error = None\<rparr>"
    if "id_field newItem \<noteq> []" "id_field newItem \<notin> set (ids (fst s))"
  proof -
    from that(2) n(2) have "api_items_get (id_field newItem) mockItems' = Inr newItem"
      by (simp add: api_items_get_append_fresh)
    with rc that(1) show ?thesis unfolding reads_current_def by blast
  qed
  with n l st rc ev show ?thesis by blast
qed

lemma useUpdateItem_effect:
  assumes "useUpdateItem (i, p) s = (Inr r, mockItems', qc')"
  shows "events qc' = events (snd s) @ [MutationCalled, MutationSucceeded,
                      Invalidated ITEMS_QUERY_KEY, Invalidated (ITEMS_QUERY_KEY @ [i])]
       \<and> all_stale_under ITEMS_QUERY_KEY qc' \<and> all_stale_under (ITEMS_QUERY_KEY @ [i]) qc'
       \<and> reads_current mockItems' qc'
       \<and> api_items_update i p (fst s) = (Inr r, mockItems')
       \<and> (\<exists>old. api_items_get i (fst s) = Inr old \<and> r = spread old p)
       \<and> fst (useItems mockItems' qc')
           = \<lparr>result_data = Some (ItemsData mockItems'), result_error = None\<rparr>
       \<and> (i \<noteq> [] \<and> (p_id p = None \<or> p_id p = Some i) \<longrightarrow>
             fst (useItem i mockItems' qc')
               = \<lparr>result_data = Some (ItemData r), result_error = None\<rparr>)
       \<and> (i \<noteq> [] \<and> i \<notin> set (ids mockItems') \<longrightarrow>
             fst (useItem i mockItems' qc')
               = \<lparr>result_data = held_data (snd s) (ITEMS_QUERY_KEY @ [i]),
                  result_error = Some ItemNotFound\<rparr>)"
proof -
  let ?qc = "(snd s)\<lparr>events := events (snd s) @ [MutationCalled, MutationSucceeded]\<rparr>"
  obtain res0 ms0 where u: "api_items_update i p (fst s) = (res0, ms0)"
    by (cases "api_items_update i p (fst s)")
  have ok: "res0 = Inr r \<and> ms0 = mockItems'"
  proof (cases res0)
    case (Inl err)
    with u assms show ?thesis by (simp add: useUpdateItem_failure)
  next
    case (Inr r0)
    with u assms show ?thesis by (simp add: useUpdateItem_success)
  qed
  with u have u': "api_items_update i p (fst s) = (Inr r, mockItems')" by simp
  from useUpdateItem_success [OF u'] assms
  have qc': "qc' = invalidateQueries (ITEMS_QUERY_KEY @ [i]) (invalidateQueries ITEMS_QUERY_KEY ?qc)"
    by simp
  have st1: "all_stale_under ITEMS_QUERY_KEY qc'"
    unfolding qc' by (intro all_stale_invalidate_again all_stale_invalidate)
  have st2: "all_stale_under (ITEMS_QUERY_KEY @ [i]) qc'"
    unfolding qc' by (rule all_stale_invalidate)
  from st1 have rc: "reads_current mockItems' qc'" by (rule all_stale_reads_current)
  have ev: "events qc' = events (snd s) @ [MutationCalled, MutationSucceeded,
                      Invalidated ITEMS_QUERY_KEY, Invalidated (ITEMS_QUERY_KEY @ [i])]"
    by (simp add: qc' events_invalidateQueries)
  have hd: "held_data qc' k = held_data (snd s) k" for k
    by (simp add: qc' held_data_invalidateQueries held_data_events)
  from update_success_shape [OF u'] obtain k where
    k: "findIndex (\<lambda>item. id_field item = i) (fst s) = Some k" "k < length (fst s)"
       "id_field (fst s ! k) = i" "r = spread (fst s ! k) p" "mockItems' = (fst s)[k := r]"
    by blast
  have old: "\<exists>old. api_items_get i (fst s) = Inr old \<and> r = spread old p"
    using api_items_get_findIndex [OF k(1)] k(4) by blast
  from rc have l: "fst (useItems mockItems' qc')
           = \<lparr>result_data = Some (ItemsData mockItems'), result_error = None\<rparr>"
    by (simp add: reads_current_def)
  have same: "fst (useItem i mockItems' qc')
               = \<lparr>result_data = Some (ItemData r), result_error = None\<rparr>"
    if "i \<noteq> []" "p_id p = None \<or> p_id p = Some i"
  proof -
    from that(2) k(3,4) have "id_field r = i" by (auto simp: spread_def)
    with findIndex_update_same [OF k(1), of r] k(5)
    have "findIndex (\<lambda>item. id_field item = i) mockItems' = Some k" by simp
    then have "api_items_get i mockItems' = Inr (mockItems' ! k)"
      by (rule api_items_get_findIndex)
    with k(2,5) have "api_items_get i mockItems' = Inr r" by simp
    with rc that(1) show ?thesis unfolding reads_current_def by blast
  qed
  have gone: "fst (useItem i mockItems' qc')
               = \<lparr>result_data = held_data (snd s) (ITEMS_QUERY_KEY @ [i]),
                  result_error = Some ItemNotFound\<rparr>"
    if "i \<noteq> []" "i \<notin> set (ids mockItems')"
  proof -
    from that(2) have "api_items_get i mockItems' = Inl ItemNotFound"
      by (rule api_items_get_absent)
    with rc that(1) have "fst (useItem i mockItems' qc')
        = \<lparr>result_data = held_data qc' (ITEMS_QUERY_KEY @ [i]), result_error = Some ItemNotFound\<rparr>"
      unfolding reads_current_def by blast
    then show ?thesis by (simp add: hd)
  qed
  from ev st1 st2 rc u' old l same gone show ?thesis by blast
qed

lemma useDeleteItem_effect:
  assumes "useDeleteItem i s = (res, mockItems', qc')"
  shows "events qc' = events (snd s) @ [MutationCalled, MutationSucceeded, Invalidated ITEMS_QUERY_KEY]
       \<and> all_stale_under ITEMS_QUERY_KEY qc' \<and> reads_current mockItems' qc'
       \<and> res = Inr ()
       \<and> mockItems' = filter (\<lambda>item. id_field item \<noteq> i) (fst s)
       \<and> fst (useItems mockItems' qc')
           = \<lparr>result_data = Some (ItemsData (filter (\<lambda>item. id_field item \<noteq> i) (fst s))),
              result_error = None\<rparr>
       \<and> (i \<noteq> [] \<longrightarrow>
             fst (useItem i mockItems' qc')
               = \<lparr>result_data = held_data (snd s) (ITEMS_QUERY_KEY @ [i]),
                  result_error = Some ItemNotFound\<rparr>)"
proof -
  let ?qc = "(snd s)\<lparr>events := events (snd s) @ [MutationCalled, MutationSucceeded]\<rparr>"
  from assms have qc': "qc' = invalidateQueries ITEMS_QUERY_KEY ?qc"
    and res: "res = Inr ()"
    and ms': "mockItems' = snd (api_items_delete i (fst s))"
    by (simp_all add: useDeleteItem_eq)
  have st: "all_stale_under ITEMS_QUERY_KEY qc'"
    unfolding qc' by (rule all_stale_invalidate)
  then have rc: "reads_current mockItems' qc'" by (rule all_stale_reads_current)
  have ev: "events qc' = events (snd s) @ [MutationCalled, MutationSucceeded, Invalidated ITEMS_QUERY_KEY]"
    by (simp add: qc' events_invalidateQueries)
  have hd: "held_data qc' k = held_data (snd s) k" for k
    by (simp add: qc' held_data_invalidateQueries held_data_events)
  have f: "mockItems' = filter (\<lambda>item. id_field item \<noteq> i) (fst s)"
    by (simp add: ms' api_items_delete_def)
  with rc have l: "fst (useItems mockItems' qc')
           = \<lparr>result_data = Some (ItemsData (filter (\<lambda>item. id_field item \<noteq> i) (fst s))),
              result_error = None\<rparr>"
    by (simp add: reads_current_def)
  have "i \<notin> set (ids mockItems')" unfolding ms' by (simp add: ids_delete)
  then have "api_items_get i mockItems' = Inl ItemNotFound"
    by (rule api_items_get_absent)
  with rc have "i \<noteq> [] \<longrightarrow> fst (useItem i mockItems' qc')
      = \<lparr>result_data = held_data qc' (ITEMS_QUERY_KEY @ [i]), result_error = Some ItemNotFound\<rparr>"
    unfolding reads_current_def by blast
  then have g: "i \<noteq> [] \<longrightarrow> fst (useItem i mockItems' qc')
      = \<lparr>result_data = held_data (snd s) (ITEMS_QUERY_KEY @ [i]), result_error = Some ItemNotFound\<rparr>"
    by (simp add: hd)
  from ev st rc res f l g show ?thesis by blast
qed

lemma run_reads_current:
  "reads_current (fst (run ops (mockItems, QueryClient_init)))
                 (snd (run ops (mockItems, QueryClient_init)))
   \<and> fst (useItem [] (fst (run ops (mockItems, QueryClient_init)))
                     (snd (run ops (mockItems, QueryClient_init))))
       = \<lparr>result_data = None, result_error = None\<rparr>"
proof -
  have "coherent (fst (mockItems, QueryClient_init)) (snd (mockItems, QueryClient_init))"
    by (simp add: coherent_init)
  then have "coherent (fst (run ops (mockItems, QueryClient_init)))
                 (snd (run ops (mockItems, QueryClient_init)))"
    by (rule coherent_run)
  then show ?thesis by (simp add: coherent_reads_current useItem_empty_result)
qed

section \<open>Claims about the query-cache layer\<close>

text \<open>
  Claim C6, as amended. After a mutation through one of the three hooks has succeeded, the
  layer has invalidated the related keys, and only after the success was known: the events
  added are the call, the success, then the invalidation of \<^verbatim>\<open>['items']\<close> and, for an
  update, of \<^verbatim>\<open>['items', id]\<close>; every entry under an invalidated key is stale. A list
  read right afterwards gives the collection as the mutation left it: with the created
  record appended, with the updated record in its place, without the deleted records. An
  item read with a non-empty identifier refetches: it gives the record that \<^verbatim>\<open>get\<close>
  finds now (the created record under a fresh identifier, the merged record after an
  update that keeps the identifier), and when \<^verbatim>\<open>get\<close> now rejects (after a delete, or
  after an update that renamed the only record) it gives the "not found" error next to
  the data the entry held before, which is not erased. After every sequence of
  operations issued through the hooks, starting from the empty cache, the reads are as
  just described; the read \<^verbatim>\<open>useItem('')\<close> is disabled and gives nothing.
\<close>

theorem mutation_invalidates_then_reads_current:
  "(\<forall>res mockItems' qc'. useCreateItem rnd now d s = (res, mockItems', qc') \<longrightarrow>
       events qc' = events (snd s) @ [MutationCalled, MutationSucceeded, Invalidated ITEMS_QUERY_KEY]
       \<and> all_stale_under ITEMS_QUERY_KEY qc' \<and> reads_current mockItems' qc'
       \<and> (\<exists>newItem. res = Inr newItem \<and> mockItems' = fst s @ [newItem]
             \<and> fst (useItems mockItems' qc')
                 = \<lparr>result_data = Some (ItemsData (fst s @ [newItem])), result_error = None\<rparr>
             \<and> (id_field newItem \<noteq> [] \<and> id_field newItem \<notin> set (ids (fst s)) \<longrightarrow>
                   fst (useItem (id_field newItem) mockItems' qc')
                     = \<lparr>result_data = Some (ItemData newItem), result_error = None\<rparr>)))
   \<and> (\<forall>r mockItems' qc'. useUpdateItem (i, p) s = (Inr r, mockItems', qc') \<longrightarrow>
       events qc' = events (snd s) @ [MutationCalled, MutationSucceeded,
                      Invalidated ITEMS_QUERY_KEY, Invalidated (ITEMS_QUERY_KEY @ [i])]
       \<and> all_stale_under ITEMS_QUERY_KEY qc' \<and> all_stale_under (ITEMS_QUERY_KEY @ [i]) qc'
       \<and> reads_current mockItems' qc'
       \<and> api_items_update i p (fst s) = (Inr r, mockItems')
       \<and> (\<exists>old. api_items_get i (fst s) = Inr old \<and> r = spread old p)
       \<and> fst (useItems mockItems' qc')
           = \<lparr>result_data = Some (ItemsData mockItems'), result_error = None\<rparr>
       \<and> (i \<noteq> [] \<and> (p_id p = None \<or> p_id p = Some i) \<longrightarrow>
             fst (useItem i mockItems' qc')
               = \<lparr>result_data = Some (ItemData r), result_error = None\<rparr>)
       \<and> (i \<noteq> [] \<and> i \<notin> set (ids mockItems') \<longrightarrow>
             fst (useItem i mockItems' qc')
               = \<lparr>result_data = held_data (snd s) (ITEMS_QUERY_KEY @ [i]),
                  result_error = Some ItemNotFound\<rparr>))
   \<and> (\<forall>res mockItems' qc'. useDeleteItem i s = (res, mockItems', qc') \<longrightarrow>
       events qc' = events (snd s) @ [MutationCalled, MutationSucceeded, Invalidated ITEMS_QUERY_KEY]
       \<and> all_stale_under ITEMS_QUERY_KEY qc' \<and> reads_current mockItems' qc'
       \<and> res = Inr ()
       \<and> mockItems' = filter (\<lambda>item. id_field item \<noteq> i) (fst s)
       \<and> fst (useItems mockItems' qc')
           = \<lparr>result_data = Some (ItemsData (filter (\<lambda>item. id_field item \<noteq> i) (fst s))),
              result_error = None\<rparr>
       \<and> (i \<noteq> [] \<longrightarrow>
             fst (useItem i mockItems' qc')
               = \<lparr>result_data = held_data (snd s) (ITEMS_QUERY_KEY @ [i]),
                  result_error = Some ItemNotFound\<rparr>))
   \<and> reads_current (fst (run ops (mockItems, QueryClient_init)))
                    (snd (run ops (mockItems, QueryClient_init)))
   \<and> fst (useItem [] (fst (run ops (mockItems, QueryClient_init)))
                     (snd (run ops (mockItems, QueryClient_init))))
       = \<lparr>result_data = None, result_error = None\<rparr>"
  using useCreateItem_effect [of rnd now d s] useUpdateItem_effect [of i p s]
    useDeleteItem_effect [of i s] run_reads_current [of ops mockItems]
  by blast

theorem mutation_invalidates_then_reads_current_witness:
  "fst (useItems (fst (run [OpList, OpCreate widget ''0.4fzyo82mvyr'' ''T1'']
                        (mockItems_init ''T0'', QueryClient_init)))
                 (snd (run [OpList, OpCreate widget ''0.4fzyo82mvyr'' ''T1'']
                        (mockItems_init ''T0'', QueryClient_init))))
     = \<lparr>result_data = Some (ItemsData (mockItems_init ''T0'' @
         [\<lparr>id_field = ''82mvyr'', name = ''Widget'', description = ''A sample widget'',
           status = active, createdAt = ''T1''\<rparr>])), result_error = None\<rparr>
   \<and> events (snd (snd (useCreateItem ''0.4fzyo82mvyr'' ''T1'' widget
         (mockItems_init ''T0'', QueryClient_init))))
     = [MutationCalled, MutationSucceeded, Invalidated [''items'']]
   \<and> events (snd (snd (useUpdateItem (''1'', \<lparr>p_id = None, p_name = Some ''X'',
         p_description = None, p_status = None, p_createdAt = None\<rparr>)
         (mockItems_init ''T0'', QueryClient_init))))
     = [MutationCalled, MutationSucceeded, Invalidated [''items''], Invalidated [''items'', ''1'']]
   \<and> fst (useItem ''1''
         (fst (snd (useUpdateItem (''1'', \<lparr>p_id = None, p_name = Some ''X'',
            p_description = None, p_status = None, p_createdAt = None\<rparr>)
            (mockItems_init ''T0'', QueryClient_init))))
         (snd (snd (useUpdateItem (''1'', \<lparr>p_id = None, p_name = Some ''X'',
            p_description = None, p_status = None, p_createdAt = None\<rparr>)
            (mockItems_init ''T0'', QueryClient_init)))))
     = \<lparr>result_data = Some (ItemData \<lparr>id_field = ''1'', name = ''X'',
            description = ''This is a sample item'', status = active, createdAt = ''T0''\<rparr>),
        result_error = None\<rparr>
   \<and> fst (useItem ''1''
         (fst (snd (useDeleteItem ''1'' (mockItems_init ''T0'', QueryClient_init))))
         (snd (snd (useDeleteItem ''1'' (mockItems_init ''T0'', QueryClient_init)))))
     = \<lparr>result_data = None, result_error = Some ItemNotFound\<rparr>"
proof -
  let ?ops = "[OpList, OpCreate widget ''0.4fzyo82mvyr'' ''T1'']"
  let ?s0 = "(mockItems_init ''T0'', QueryClient_init)"
  let ?p = "\<lparr>p_id = None, p_name = Some ''X'', p_description = None, p_status = None,
             p_createdAt = None\<rparr>"
  let ?r = "\<lparr>id_field = ''1'', name = ''X'', description = ''This is a sample item'',
             status = active, createdAt = ''T0''\<rparr>"
  let ?ms' = "[?r, \<lparr>id_field = ''2'', name = ''Second Item'', description = ''Another sample item'',
              status = inactive, createdAt = ''T0''\<rparr>]"
  let ?c = "useCreateItem ''0.4fzyo82mvyr'' ''T1'' widget ?s0"
  let ?u = "useUpdateItem (''1'', ?p) ?s0"
  let ?d = "useDeleteItem ''1'' ?s0"
  have ms: "fst (run ?ops ?s0) = mockItems_init ''T0'' @
         [\<lparr>id_field = ''82mvyr'', name = ''Widget'', description = ''A sample widget'',
           status = active, createdAt = ''T1''\<rparr>]"
    by (simp add: useCreateItem_eq api_items_create_def widget_def Let_def)
  have u: "api_items_update ''1'' ?p (fst ?s0) = (Inr ?r, ?ms')"
    by (simp add: api_items_update_def mockItems_init_def spread_def Let_def)
  have upd: "?u = (Inr ?r, fst (snd ?u), snd (snd ?u))"
    by (simp add: useUpdateItem_success [OF u])
  have cre: "?c = (fst ?c, fst (snd ?c), snd (snd ?c))" by simp
  have del: "?d = (fst ?d, fst (snd ?d), snd (snd ?d))" by simp
  have ne: "''1'' \<noteq> []" by simp
  have keep: "p_id ?p = None \<or> p_id ?p = Some ''1''" by simp
  have none: "held_data (snd ?s0) (ITEMS_QUERY_KEY @ [''1'']) = None"
    by (simp add: held_data_def QueryClient_init_def)
  note inst = mutation_invalidates_then_reads_current
    [of "''0.4fzyo82mvyr''" "''T1''" widget ?s0 "''1''" ?p ?ops "mockItems_init ''T0''"]
  from inst have "reads_current (fst (run ?ops ?s0)) (snd (run ?ops ?s0))" by blast
  then have a: "fst (useItems (fst (run ?ops ?s0)) (snd (run ?ops ?s0)))
      = \<lparr>result_data = Some (ItemsData (fst (run ?ops ?s0))), result_error = None\<rparr>"
    by (simp add: reads_current_def)
  from inst upd have "events (snd (snd ?u))
      = events (snd ?s0) @ [MutationCalled, MutationSucceeded,
                      Invalidated ITEMS_QUERY_KEY, Invalidated (ITEMS_QUERY_KEY @ [''1''])]"
    by blast
  then have b: "events (snd (snd ?u))
      = [MutationCalled, MutationSucceeded, Invalidated [''items''], Invalidated [''items'', ''1'']]"
    by (simp add: QueryClient_init_def ITEMS_QUERY_KEY_def)
  from inst upd ne keep have b2: "fst (useItem ''1'' (fst (snd ?u)) (snd (snd ?u)))
      = \<lparr>result_data = Some (ItemData ?r), result_error = None\<rparr>"
    by blast
  from inst cre have "events (snd (snd ?c))
      = events (snd ?s0) @ [MutationCalled, MutationSucceeded, Invalidated ITEMS_QUERY_KEY]"
    by blast
  then have c: "events (snd (snd ?c)) = [MutationCalled, MutationSucceeded, Invalidated [''items'']]"
    by (simp add: QueryClient_init_def ITEMS_QUERY_KEY_def)
  from inst del ne have "fst (useItem ''1'' (fst (snd ?d)) (snd (snd ?d)))
      = \<lparr>result_data = held_data (snd ?s0) (ITEMS_QUERY_KEY @ [''1'']),
         result_error = Some ItemNotFound\<rparr>"
    by blast
  with none have d: "fst (useItem ''1'' (fst (snd ?d)) (snd (snd ?d)))
      = \<lparr>result_data = None, result_error = Some ItemNotFound\<rparr>"
    by simp
  from a b b2 c d ms show ?thesis by simp
qed

text \<open>
  Claim C6 as stated fails for the read of a record that is gone. After \<^verbatim>\<open>useItem('1')\<close>
  has cached the first record and \<^verbatim>\<open>delete('1')\<close> has succeeded through the hook and
  invalidated \<^verbatim>\<open>['items']\<close>, the next \<^verbatim>\<open>useItem('1')\<close> refetches, is rejected, and
  still carries the deleted record as its data, next to the error.
\<close>

theorem deleted_record_still_read_counterexample:
  "fst (useItem ''1''
         (fst (run [OpGet ''1'', OpDelete ''1''] (mockItems_init ''T0'', QueryClient_init)))
         (snd (run [OpGet ''1'', OpDelete ''1''] (mockItems_init ''T0'', QueryClient_init))))
     = \<lparr>result_data = Some (ItemData \<lparr>id_field = ''1'', name = ''First Item'',
            description = ''This is a sample item'', status = active, createdAt = ''T0''\<rparr>),
        result_error = Some ItemNotFound\<rparr>
   \<and> fst (run [OpGet ''1'', OpDelete ''1''] (mockItems_init ''T0'', QueryClient_init))
     = [\<lparr>id_field = ''2'', name = ''Second Item'', description = ''Another sample item'',
         status = inactive, createdAt = ''T0''\<rparr>]
   \<and> events (snd (run [OpGet ''1'', OpDelete ''1''] (mockItems_init ''T0'', QueryClient_init)))
     = [MutationCalled, MutationSucceeded, Invalidated [''items'']]"
  by (simp add: useItem_def useQuery_def Let_def settle_def observe_def item_queryFn_def
      api_items_get_def useDeleteItem_eq api_items_delete_def invalidateQueries_def
      mockItems_init_def QueryClient_init_def ITEMS_QUERY_KEY_def)

text \<open>
  Claim C7. When the mutating function of a mutation fails, the outcome of the mutation is
  that error, the cache is what it was, and the events added are the call and the failure:
  nothing is invalidated. Of the three hooks only the update can fail, exactly on an
  identifier that is not in the collection, with "not found", and it then leaves the
  collection as it was too.
\<close>

theorem failed_mutation_leaves_cache:
  "(\<forall>err mockItems' qc'.
       useMutation mutationFn onSuccess variables s = (Inl err, mockItems', qc') \<longrightarrow>
         mutationFn variables (fst s) = (Inl err, mockItems')
         \<and> cache qc' = cache (snd s)
         \<and> events qc' = events (snd s) @ [MutationCalled, MutationFailed])
   \<and> (\<forall>err mockItems'. mutationFn variables (fst s) = (Inl err, mockItems') \<longrightarrow>
         fst (useMutation mutationFn onSuccess variables s) = Inl err)
   \<and> (\<forall>err mockItems' qc'. useUpdateItem (i, p) s = (Inl err, mockItems', qc') \<longrightarrow>
         err = ItemNotFound \<and> i \<notin> set (ids (fst s)) \<and> mockItems' = fst s
         \<and> cache qc' = cache (snd s)
         \<and> events qc' = events (snd s) @ [MutationCalled, MutationFailed])
   \<and> (i \<notin> set (ids (fst s)) \<longrightarrow> fst (useUpdateItem (i, p) s) = Inl ItemNotFound)
   \<and> (\<forall>err. fst (useCreateItem rnd now d s) \<noteq> Inl err)
   \<and> (\<forall>err. fst (useDeleteItem i s) \<noteq> Inl err)"
proof (intro conjI allI impI)
  fix err mockItems' qc'
  assume a: "useMutation mutationFn onSuccess variables s = (Inl err, mockItems', qc')"
  obtain res0 ms0 where m: "mutationFn variables (fst s) = (res0, ms0)"
    by (cases "mutationFn variables (fst s)")
  have r0: "res0 = Inl err \<and> ms0 = mockItems'
            \<and> qc' = (snd s)\<lparr>events := events (snd s) @ [MutationCalled, MutationFailed]\<rparr>"
  proof (cases res0)
    case (Inl e)
    with m a show ?thesis by (simp add: useMutation_failure)
  next
    case (Inr r)
    with m a show ?thesis by (simp add: useMutation_success)
  qed
  with m show "mutationFn variables (fst s) = (Inl err, mockItems')" by simp
  from r0 show "cache qc' = cache (snd s)" by simp
  from r0 show "events qc' = events (snd s) @ [MutationCalled, MutationFailed]" by simp
next
  fix err mockItems'
  assume "mutationFn variables (fst s) = (Inl err, mockItems')"
  then show "fst (useMutation mutationFn onSuccess variables s) = Inl err"
    by (simp add: useMutation_failure)
next
  fix err mockItems' qc'
  assume a: "useUpdateItem (i, p) s = (Inl err, mockItems', qc')"
  obtain res0 ms0 where u: "api_items_update i p (fst s) = (res0, ms0)"
    by (cases "api_items_update i p (fst s)")
  have r0: "res0 = Inl err \<and> ms0 = mockItems'
            \<and> qc' = (snd s)\<lparr>events := events (snd s) @ [MutationCalled, MutationFailed]\<rparr>"
  proof (cases res0)
    case (Inl e)
    with u a show ?thesis by (simp add: useUpdateItem_failure)
  next
    case (Inr r)
    with u a show ?thesis by (simp add: useUpdateItem_success)
  qed
  with u have "api_items_update i p (fst s) = (Inl err, mockItems')" by simp
  from api_items_update_failure_unchanged [OF this]
  show "err = ItemNotFound" "i \<notin> set (ids (fst s))" "mockItems' = fst s" by simp_all
  from r0 show "cache qc' = cache (snd s)" by simp
  from r0 show "events qc' = events (snd s) @ [MutationCalled, MutationFailed]" by simp
next
  assume "i \<notin> set (ids (fst s))"
  then have "api_items_update i p (fst s) = (Inl ItemNotFound, fst s)"
    by (rule api_items_update_absent)
  then show "fst (useUpdateItem (i, p) s) = Inl ItemNotFound"
    by (simp add: useUpdateItem_failure)
next
  fix err
  show "fst (useCreateItem rnd now d s) \<noteq> Inl err"
    by (simp add: useCreateItem_eq api_items_create_def Let_def)
  show "fst (useDeleteItem i s) \<noteq> Inl err"
    by (simp add: useDeleteItem_eq)
qed

theorem failed_mutation_leaves_cache_witness:
  "''nonexistent-id'' \<notin> set (ids (mockItems_init ''T''))
   \<and> useUpdateItem (''nonexistent-id'', \<lparr>p_id = None, p_name = Some ''X'', p_description = None,
        p_status = None, p_createdAt = None\<rparr>)
        (mockItems_init ''T'', snd (useItems (mockItems_init ''T'') QueryClient_init))
     = (Inl ItemNotFound, mockItems_init ''T'',
        (snd (useItems (mockItems_init ''T'') QueryClient_init))
          \<lparr>events := [MutationCalled, MutationFailed]\<rparr>)
   \<and> cache (snd (useItems (mockItems_init ''T'') QueryClient_init)) ITEMS_QUERY_KEY
     = Some \<lparr>entry_data = Some (ItemsData (mockItems_init ''T'')), entry_error = None,
            stale = False\<rparr>"
proof -
  let ?p = "\<lparr>p_id = None, p_name = Some ''X'', p_description = None,
        p_status = None, p_createdAt = None\<rparr>"
  let ?qc = "snd (useItems (mockItems_init ''T'') QueryClient_init)"
  let ?s = "(mockItems_init ''T'', ?qc)"
  have h: "''nonexistent-id'' \<notin> set (ids (fst ?s))"
    by (simp add: ids_def mockItems_init_def)
  have ev: "events ?qc = []"
    by (simp add: useItems_def useQuery_def QueryClient_init_def Let_def)
  have c: "cache ?qc ITEMS_QUERY_KEY
     = Some \<lparr>entry_data = Some (ItemsData (mockItems_init ''T'')), entry_error = None,
            stale = False\<rparr>"
    by (simp add: useItems_def useQuery_def QueryClient_init_def Let_def api_items_list_def
        settle_def)
  obtain res ms' qc' where r: "useUpdateItem (''nonexistent-id'', ?p) ?s = (res, ms', qc')"
    by (cases "useUpdateItem (''nonexistent-id'', ?p) ?s")
  note inst = failed_mutation_leaves_cache
    [of "\<lambda>v. api_items_update (fst v) (snd v)" "\<lambda>_ _ qc. qc" "(''nonexistent-id'', ?p)" ?s
        "''nonexistent-id''" ?p "''0.i''" "''T1''" widget]
  from inst h have "fst (useUpdateItem (''nonexistent-id'', ?p) ?s) = Inl ItemNotFound"
    by blast
  with r have res: "res = Inl ItemNotFound" by simp
  with inst r have "ms' = fst ?s \<and> cache qc' = cache (snd ?s)
      \<and> events qc' = events (snd ?s) @ [MutationCalled, MutationFailed]"
    by blast
  with ev have "ms' = mockItems_init ''T'' \<and> qc' = ?qc\<lparr>events := [MutationCalled, MutationFailed]\<rparr>"
    by simp
  with r res h c show ?thesis by simp
qed

section \<open>Claims about the creation form\<close>

lemma valid_form_calls_create:
  assumes "createItemSchema f = Inr d"
  shows "\<exists>newItem qc'. handleSubmit rnd now f s
           = (None, [Toast ''Item created'' (data_name d @ '' has been created successfully'') success,
                     Navigate ''/items''],
              fst s @ [newItem], qc')
         \<and> MutationCalled \<in> set (events qc')"
  using assms
  by (simp add: handleSubmit_def onSubmit_def useCreateItem_eq api_items_create_def Let_def
      events_invalidateQueries)

text \<open>
  Claim C8. A submission of the creation form whose name has fewer than 3 characters is
  rejected by the schema with the field error of the name; the submit handler returns
  those errors, shows no toast, and leaves the collection and the query client as they
  were: no mutation is called, so no record is added.
\<close>

theorem short_name_rejected_before_create:
  assumes "length (form_name f) < 3"
  shows "\<exists>errs. createItemSchema f = Inl errs
           \<and> errors_name errs = Some ''Name must be at least 3 characters''
           \<and> handleSubmit rnd now f s = (Some errs, [], s)
           \<and> api_items_list (fst (snd (snd (handleSubmit rnd now f s)))) = api_items_list (fst s)
           \<and> events (snd (snd (snd (handleSubmit rnd now f s)))) = events (snd s)"
proof -
  define errs where "errs =
        \<lparr>errors_name = Some ''Name must be at least 3 characters'',
         errors_description =
           (if length (form_description f) < 10
              then Some ''Description must be at least 10 characters''
            else if length (form_description f) > 200
              then Some ''Description must be less than 200 characters''
            else None),
         errors_status =
           (case form_status f of None \<Rightarrow> Some ''Please select a status'' | Some _ \<Rightarrow> None)\<rparr>"
  have "createItemSchema f = Inl errs"
  proof (cases "form_status f")
    case None
    with assms show ?thesis by (simp add: createItemSchema_def errs_def)
  next
    case (Some st)
    with assms show ?thesis by (simp add: createItemSchema_def errs_def)
  qed
  moreover have "errors_name errs = Some ''Name must be at least 3 characters''"
    by (simp add: errs_def)
  ultimately have e: "createItemSchema f = Inl errs"
    "errors_name errs = Some ''Name must be at least 3 characters''"
    by simp_all
  then have "handleSubmit rnd now f s = (Some errs, [], s)"
    by (simp add: handleSubmit_def)
  with e show ?thesis by simp
qed

theorem short_name_rejected_before_create_witness:
  "length (form_name \<lparr>form_name = ''ab'', form_description = ''A sample widget'',
                       form_status = Some active\<rparr>) < 3
   \<and> handleSubmit ''0.4fzyo82mvyr'' ''T1''
        \<lparr>form_name = ''ab'', form_description = ''A sample widget'', form_status = Some active\<rparr>
        (mockItems_init ''T0'', QueryClient_init)
     = (Some \<lparr>errors_name = Some ''Name must be at least 3 characters'',
               errors_description = None, errors_status = None\<rparr>,
        [], mockItems_init ''T0'', QueryClient_init)"
proof -
  let ?f = "\<lparr>form_name = ''ab'', form_description = ''A sample widget'',
             form_status = Some active\<rparr>"
  have h: "length (form_name ?f) < 3" by simp
  have c: "createItemSchema ?f = Inl \<lparr>errors_name = Some ''Name must be at least 3 characters'',
               errors_description = None, errors_status = None\<rparr>"
    by (simp add: createItemSchema_def Let_def)
  from short_name_rejected_before_create [OF h, of "''0.4fzyo82mvyr''" "''T1''"
      "(mockItems_init ''T0'', QueryClient_init)"] c h
  show ?thesis by auto
qed

section \<open>Claims about the UI state store\<close>

text \<open>
  Claim C10. \<^verbatim>\<open>toggleSidebar\<close> is an involution: applied twice it restores the store, and
  \<^verbatim>\<open>sidebarOpen\<close> with it. \<^verbatim>\<open>setSidebarOpen(open)\<close> leaves \<^verbatim>\<open>sidebarOpen\<close> equal to
  \<^verbatim>\<open>open\<close>. Neither changes anything else in the store, and \<^verbatim>\<open>sidebarOpen\<close> is true
  initially.
\<close>

theorem sidebar_toggle_involution_set_exact:
  "toggleSidebar (toggleSidebar state) = state
   \<and> sidebarOpen (toggleSidebar state) = (\<not> sidebarOpen state)
   \<and> sidebarOpen (toggleSidebar (toggleSidebar state)) = sidebarOpen state
   \<and> sidebarOpen (setSidebarOpen opn state) = opn
   \<and> UIState.more (toggleSidebar state) = UIState.more state
   \<and> UIState.more (setSidebarOpen opn state) = UIState.more state
   \<and> sidebarOpen useUIStore_init = True"
  by (simp add: toggleSidebar_def setSidebarOpen_def useUIStore_init_def)

theorem sidebar_toggle_involution_set_exact_witness:
  "toggleSidebar (toggleSidebar useUIStore_init) = useUIStore_init
   \<and> sidebarOpen (toggleSidebar useUIStore_init) = False
   \<and> sidebarOpen (setSidebarOpen False useUIStore_init) = False"
  using sidebar_toggle_involution_set_exact [of useUIStore_init False]
  by (simp add: toggleSidebar_def useUIStore_init_def)

end
